theory Spec2Isabelle
  imports Main "HOL-Library.Sublist" "HOL-Library.AList" "HOL-Library.Multiset"
begin

section \<open>Python text primitives used by the device clients\<close>

text \<open>
  The wire protocol is ASCII. The sources decode every received byte string with
  \<^verbatim>\<open>decode("utf-8", errors="ignore")\<close> before looking at it; the model starts from the
  decoded text, a \<^typ>\<open>string\<close> whose characters are code points below 256.

  \<^verbatim>\<open>str.isspace\<close>, \<^verbatim>\<open>str.strip()\<close>, \<^verbatim>\<open>str.split()\<close> and the regular expression class
  \<^verbatim>\<open>\s\<close> agree on what white space is: TAB, LF, VT, FF, CR, the separators 0x1C to 0x1F,
  SPACE, NEL (0x85) and NBSP (0xA0).
\<close>

definition is_space :: "char \<Rightarrow> bool" where
  "is_space c = (of_char c \<in> {9, 10, 11, 12, 13, 28, 29, 30, 31, 32, 133, 160 :: nat})"

text \<open>\<^verbatim>\<open>s.strip(chars)\<close> and \<^verbatim>\<open>s.strip()\<close>.\<close>

definition py_strip_chars :: "string \<Rightarrow> string \<Rightarrow> string" where
  "py_strip_chars cs s =
     rev (dropWhile (\<lambda>c. c \<in> set cs) (rev (dropWhile (\<lambda>c. c \<in> set cs) s)))"

definition py_strip :: "string \<Rightarrow> string" where
  "py_strip s = rev (dropWhile is_space (rev (dropWhile is_space s)))"

text \<open>\<^verbatim>\<open>s.split()\<close>: the maximal runs of characters that are not white space.\<close>

fun py_split_acc :: "string \<Rightarrow> string \<Rightarrow> string list" where
  "py_split_acc cur [] = (if cur = [] then [] else [cur])"
| "py_split_acc cur (c # cs) =
     (if is_space c
      then (if cur = [] then py_split_acc [] cs else cur # py_split_acc [] cs)
      else py_split_acc (cur @ [c]) cs)"

definition py_split :: "string \<Rightarrow> string list" where
  "py_split s = py_split_acc [] s"

text \<open>
  \<^verbatim>\<open>s.split(sep)\<close> for a separator that is not empty: the pieces between the
  occurrences of the separator, found from left to right without overlap. The result is
  never empty.
\<close>

fun py_split_sep_acc :: "string \<Rightarrow> string \<Rightarrow> string \<Rightarrow> string list" where
  "py_split_sep_acc sep cur [] = [cur]"
| "py_split_sep_acc sep cur (c # cs) =
     (if sep \<noteq> [] \<and> prefix sep (c # cs)
      then cur # py_split_sep_acc sep [] (drop (length sep - 1) cs)
      else py_split_sep_acc sep (cur @ [c]) cs)"

definition py_split_sep :: "string \<Rightarrow> string \<Rightarrow> string list" where
  "py_split_sep sep s = py_split_sep_acc sep [] s"

text \<open>\<^verbatim>\<open>sub in s\<close> and \<^verbatim>\<open>s.startswith(p)\<close>.\<close>

fun py_in :: "string \<Rightarrow> string \<Rightarrow> bool" where
  "py_in sub [] = (sub = [])"
| "py_in sub (c # cs) = (prefix sub (c # cs) \<or> py_in sub cs)"

definition startswith :: "string \<Rightarrow> string \<Rightarrow> bool" where
  "startswith s p = prefix p s"

text \<open>
  \<^verbatim>\<open>s.upper()\<close> on code points below 256: the letters a to z, the sharp s (0xDF), which
  becomes \<^verbatim>\<open>SS\<close>, and the accented small letters 0xE0 to 0xFE (without the division sign
  0xF7), which move down by 32. The micro sign (0xB5) and the y with diaeresis (0xFF) have
  capitals above 255, which a \<^typ>\<open>char\<close> cannot hold; they are kept, and like their
  capitals they occur in no key of the registry.
\<close>

definition upper_char :: "char \<Rightarrow> string" where
  "upper_char c =
     (case map_of (zip ''abcdefghijklmnopqrstuvwxyz'' ''ABCDEFGHIJKLMNOPQRSTUVWXYZ'') c of
        Some u \<Rightarrow> [u]
      | None \<Rightarrow>
          if c = CHR 0xDF then ''SS''
          else if 224 \<le> (of_char c :: nat) \<and> (of_char c :: nat) \<le> 254 \<and> c \<noteq> CHR 0xF7
          then [char_of ((of_char c :: nat) - 32)]
          else [c])"

definition py_upper :: "string \<Rightarrow> string" where
  "py_upper s = concat (map upper_char s)"

text \<open>\<^verbatim>\<open>int(s)\<close> on a string of decimal digits, and \<^verbatim>\<open>str(i)\<close> of an integer.\<close>

definition digit_val :: "char \<Rightarrow> int" where
  "digit_val c = int (of_char c - (48::nat))"

definition py_int :: "string \<Rightarrow> int" where
  "py_int s = foldl (\<lambda>a c. 10 * a + digit_val c) 0 s"

function str_nat :: "nat \<Rightarrow> string" where
  "str_nat n =
     (if n < 10 then [''0123456789'' ! n]
      else str_nat (n div 10) @ [''0123456789'' ! (n mod 10)])"
  by pat_completeness auto
termination
  by (relation "measure id") auto

declare str_nat.simps [simp del]

definition py_str_int :: "int \<Rightarrow> string" where
  "py_str_int i = (if i < 0 then CHR ''-'' # str_nat (nat (- i)) else str_nat (nat i))"

section \<open>Python values and dictionaries\<close>

text \<open>
  The values the clients handle: \<^verbatim>\<open>None\<close>, integers, strings and dictionaries. A
  dictionary is an association list in insertion order with distinct keys;
  \<^const>\<open>AList.update\<close> is \<^verbatim>\<open>d[k] = v\<close> (an existing key keeps its place, a new one goes
  to the end).
\<close>

datatype pyval = PNone | PInt int | PStr string | PDict "(pyval \<times> pyval) list"

type_synonym pydict = "(pyval \<times> pyval) list"

text \<open>A dictionary display \<^verbatim>\<open>{k1: v1, k2: v2}\<close>: a later equal key overwrites.\<close>

definition py_dict :: "(pyval \<times> pyval) list \<Rightarrow> pydict" where
  "py_dict items = fold (\<lambda>(k, v) d. AList.update k v d) items []"

text \<open>\<^verbatim>\<open>d.update(other)\<close>.\<close>

definition dict_update :: "pydict \<Rightarrow> pydict \<Rightarrow> pydict" where
  "dict_update d other = fold (\<lambda>(k, v) d. AList.update k v d) other d"

text \<open>
  Exceptions, with \<^verbatim>\<open>str(e)\<close>; the constructors carry the message (for KeyError the
  \<^verbatim>\<open>repr\<close> of the key). \<open>quoted\<close> puts a word between apostrophes.
\<close>

definition quoted :: "string \<Rightarrow> string" where
  "quoted s = CHR 0x27 # s @ [CHR 0x27]"

datatype pyexn =
    SocketTimeout
  | OSError string
  | StopIteration
  | KeyError string
  | AttributeError string
  | TypeError string
  | ValueError string

fun exn_str :: "pyexn \<Rightarrow> string" where
  "exn_str SocketTimeout = ''timed out''"
| "exn_str (OSError m) = m"
| "exn_str StopIteration = []"
| "exn_str (KeyError m) = m"
| "exn_str (AttributeError m) = m"
| "exn_str (TypeError m) = m"
| "exn_str (ValueError m) = m"

section \<open>Regular expressions\<close>

text \<open>
  The patterns of the sources use literal characters, character classes, the quantifiers
  \<^verbatim>\<open>?\<close>, \<^verbatim>\<open>*\<close>, \<^verbatim>\<open>+\<close> and \<^verbatim>\<open>+?\<close> on single characters, capturing groups, optional
  non-capturing groups and \<^verbatim>\<open>$\<close>. A pattern is a list of items; the function
  \<open>cmatch\<close> says which characters a class accepts.
\<close>

datatype cclass =
    CChar char
  | CSpace
  | CNonSpace
  | CDigit
  | CKeyChar
  | CNoneOf "char list"
  | CDot

fun cmatch :: "cclass \<Rightarrow> char \<Rightarrow> bool" where
  "cmatch (CChar a) c = (c = a)"
| "cmatch CSpace c = is_space c"
| "cmatch CNonSpace c = (\<not> is_space c)"
| "cmatch CDigit c = (c \<in> set ''0123456789'')"
| "cmatch CKeyChar c = (c \<in> set ''ABCDEFGHIJKLMNOPQRSTUVWXYZ0123456789_'')"
| "cmatch (CNoneOf cs) c = (c \<notin> set cs)"
| "cmatch CDot c = (c \<noteq> CHR 0x0A)"

datatype quant = One | Opt | Star | Plus | LazyPlus

datatype rx = Atom cclass quant | Open nat | Close nat | OptSeq "rx list" | Eos

text \<open>
  The matcher's state: where each group was opened (the input that was left then) and
  the text each closed group captured.
\<close>

record mstate =
  marks :: "nat \<Rightarrow> string option"
  caps :: "nat \<Rightarrow> string option"

text \<open>
  \<^verbatim>\<open>pattern.match(s)\<close>: a backtracking search, anchored at the start of the input, that
  tries the alternatives of every quantifier in the order of \<^verbatim>\<open>re\<close> (greedy ones the
  longest first, the lazy one the shortest first) and stops at the first success. The
  pattern list is the continuation. \<^verbatim>\<open>$\<close> holds at the end of the input and before a
  final line feed.
\<close>

function rmatch :: "rx list \<Rightarrow> string \<Rightarrow> mstate \<Rightarrow> mstate option" where
  "rmatch [] s st = Some st"
| "rmatch (Atom c One # k) s st =
     (case s of [] \<Rightarrow> None | x # xs \<Rightarrow> if cmatch c x then rmatch k xs st else None)"
| "rmatch (Atom c Opt # k) s st =
     (case s of [] \<Rightarrow> rmatch k [] st
      | x # xs \<Rightarrow>
          if cmatch c x
          then (case rmatch k xs st of Some r \<Rightarrow> Some r | None \<Rightarrow> rmatch k (x # xs) st)
          else rmatch k (x # xs) st)"
| "rmatch (Atom c Star # k) s st =
     (case s of [] \<Rightarrow> rmatch k [] st
      | x # xs \<Rightarrow>
          if cmatch c x
          then (case rmatch (Atom c Star # k) xs st of Some r \<Rightarrow> Some r
                | None \<Rightarrow> rmatch k (x # xs) st)
          else rmatch k (x # xs) st)"
| "rmatch (Atom c Plus # k) s st =
     (case s of [] \<Rightarrow> None
      | x # xs \<Rightarrow> if cmatch c x then rmatch (Atom c Star # k) xs st else None)"
| "rmatch (Atom c LazyPlus # k) s st =
     (case s of [] \<Rightarrow> None
      | x # xs \<Rightarrow>
          if cmatch c x
          then (case rmatch k xs st of Some r \<Rightarrow> Some r
                | None \<Rightarrow> rmatch (Atom c LazyPlus # k) xs st)
          else None)"
| "rmatch (Open n # k) s st = rmatch k s (st\<lparr>marks := (marks st)(n \<mapsto> s)\<rparr>)"
| "rmatch (Close n # k) s st =
     rmatch k s
       (st\<lparr>caps := (caps st)(n := map_option (\<lambda>b. take (length b - length s) b) (marks st n))\<rparr>)"
| "rmatch (OptSeq body # k) s st =
     (case rmatch (body @ k) s st of Some r \<Rightarrow> Some r | None \<Rightarrow> rmatch k s st)"
| "rmatch (Eos # k) s st = (if s = [] \<or> s = [CHR 0x0A] then rmatch k s st else None)"
  by pat_completeness auto
termination
  by (relation "measure (\<lambda>(p, s, st). size_list size p + length s)") auto

definition lits :: "string \<Rightarrow> rx list" where
  "lits s = map (\<lambda>c. Atom (CChar c) One) s"

text \<open>\<^verbatim>\<open>m = p.match(s)\<close>: \<^verbatim>\<open>None\<close>, or the groups (a group that took no part is \<^verbatim>\<open>None\<close>).\<close>

definition re_match :: "rx list \<Rightarrow> string \<Rightarrow> (nat \<Rightarrow> string option) option" where
  "re_match p s = map_option caps (rmatch p s \<lparr>marks = Map.empty, caps = Map.empty\<rparr>)"

section \<open>The multi-channel client (ad4d.py)\<close>

definition ad4d_DEVICE_GET_ONLY_KEYS :: "string list" where
  "ad4d_DEVICE_GET_ONLY_KEYS =
     [''DEVICE_ID'', ''MODEL'', ''FW_VER'', ''RF_BAND'', ''TRANSMISSION_MODE'',
      ''QUADVERSITY_MODE'', ''ENCRYPTION_MODE'']"

definition ad4d_DEVICE_GET_SET_KEYS :: "string list" where
  "ad4d_DEVICE_GET_SET_KEYS = [''DEVICE_ID'']"

definition ad4d_CHANNEL_GET_SET_KEYS :: "string list" where
  "ad4d_CHANNEL_GET_SET_KEYS =
     [''CHAN_NAME'', ''AUDIO_GAIN'', ''AUDIO_MUTE'', ''FREQUENCY'', ''GROUP_CHANNEL'',
      ''METER_RATE'', ''FLASH'']"

definition ad4d_CHANNEL_GET_ONLY_KEYS :: "string list" where
  "ad4d_CHANNEL_GET_ONLY_KEYS =
     [''FD_MODE'', ''ENCRYPTION_STATUS'', ''INTERFERENCE_STATUS'', ''UNREGISTERED_TX_STATUS'',
      ''AUDIO_LEVEL_PEAK'', ''AUDIO_LEVEL_RMS'', ''CHAN_QUALITY'', ''RSSI'', ''ANTENNA_STATUS'',
      ''TX_BATT_MINS'', ''TX_BATT_TYPE'', ''TX_MODEL'', ''TX_DEVICE_ID'', ''TX_POWER_LEVEL'']"

definition ad4d_ALL_KEYS :: "string list" where
  "ad4d_ALL_KEYS =
     ad4d_DEVICE_GET_ONLY_KEYS @ ad4d_DEVICE_GET_SET_KEYS @ ad4d_CHANNEL_GET_SET_KEYS
       @ ad4d_CHANNEL_GET_ONLY_KEYS"

text \<open>
  \<^verbatim>\<open>REP_RE = re.compile(r"^<\s*REP\s+(?:(\d)\s+)?([A-Z0-9_]+)\s+\{?([^>}]+?)\}?\s*>?$")\<close>
  (the leading \<^verbatim>\<open>^\<close> is the anchoring of \<^verbatim>\<open>match\<close>).
\<close>

definition REP_RE :: "rx list" where
  "REP_RE =
     [Atom (CChar CHR ''<'') One, Atom CSpace Star] @ lits ''REP'' @
     [Atom CSpace Plus,
      OptSeq [Open 1, Atom CDigit One, Close 1, Atom CSpace Plus],
      Open 2, Atom CKeyChar Plus, Close 2,
      Atom CSpace Plus,
      Atom (CChar CHR ''{'') Opt,
      Open 3, Atom (CNoneOf ''>}'') LazyPlus, Close 3,
      Atom (CChar CHR ''}'') Opt,
      Atom CSpace Star,
      Atom (CChar CHR ''>'') Opt,
      Eos]"

text \<open>
  \<^verbatim>\<open>parse_report_line\<close> of ad4d.py. Groups 2 and 3 are not optional in the pattern, so
  they are set whenever it matches; \<^verbatim>\<open>if channel\<close> is false for \<^verbatim>\<open>None\<close> and for the
  empty string.
\<close>

definition ad4d_parse_report_line :: "string \<Rightarrow> pydict option" where
  "ad4d_parse_report_line line =
     (case re_match REP_RE (py_strip line) of
        None \<Rightarrow> None
      | Some g \<Rightarrow>
          (case (g 1, g 2, g 3) of
             (channel, Some key, Some val) \<Rightarrow>
               (if channel \<noteq> None \<and> channel \<noteq> Some []
                then Some (py_dict [(PStr ''channel'', PInt (py_int (the channel))),
                                    (PStr (py_strip key), PStr (py_strip val))])
                else Some (py_dict [(PStr ''channel'', PNone),
                                    (PStr (py_strip key), PStr (py_strip val))]))
           | _ \<Rightarrow> None))"

section \<open>The point-to-point client (p10t.py)\<close>

definition p10t_DEVICE_GET_ONLY_KEYS :: "string list" where
  "p10t_DEVICE_GET_ONLY_KEYS = [''DEVICE_NAME'']"

definition p10t_DEVICE_GET_SET_KEYS :: "string list" where
  "p10t_DEVICE_GET_SET_KEYS = []"

definition p10t_CHANNEL_GET_SET_KEYS :: "string list" where
  "p10t_CHANNEL_GET_SET_KEYS =
     [''CHAN_NAME'', ''AUDIO_IN_LVL'', ''GROUP_CHAN'', ''FREQUENCY'', ''RF_TX_LVL'', ''RF_MUTE'',
      ''AUDIO_TX_MODE'', ''AUDIO_IN_LINE_LVL'', ''METER_RATE'']"

definition p10t_ALL_KEYS :: "string list" where
  "p10t_ALL_KEYS =
     p10t_DEVICE_GET_ONLY_KEYS @ p10t_DEVICE_GET_SET_KEYS @ p10t_CHANNEL_GET_SET_KEYS"

text \<open>
  \<^verbatim>\<open>parse_report_line\<close> of p10t.py: the line is stripped of \<^verbatim>\<open><\<close>, \<^verbatim>\<open>>\<close> and spaces at
  both ends and cut at white space; no pattern is involved and the value token is
  returned as it is.
\<close>

definition p10t_parse_report_line :: "string \<Rightarrow> pydict option" where
  "p10t_parse_report_line line =
     (let parts = py_split (py_strip_chars ''<> '' line) in
      if length parts < 3 \<or> parts ! 0 \<noteq> ''REPORT'' then None
      else if parts ! 1 = ''1'' \<or> parts ! 1 = ''2''
      then Some (py_dict [(PStr ''channel'', PInt (py_int (parts ! 1))),
                          (PStr (parts ! 2), if length parts > 3 then PStr (parts ! 3) else PNone)])
      else Some (py_dict [(PStr ''channel'', PNone),
                          (PStr (parts ! 1), if length parts > 2 then PStr (parts ! 2) else PNone)]))"

section \<open>The command client: \<^verbatim>\<open>send_command\<close>\<close>

text \<open>
  What the socket does during one call: the outcome of \<^verbatim>\<open>create_connection\<close>, of the
  i-th \<^verbatim>\<open>sendall\<close>, and of the \<^verbatim>\<open>recv\<close> calls made while the read window
  (\<^verbatim>\<open>time.time() < end\<close>) is open. When the list of \<^verbatim>\<open>recv\<close> outcomes is used up the
  window has closed.
\<close>

datatype recv_event = Recv string | RecvRaise pyexn

record sock_behaviour =
  connect_result :: "pyexn option"
  send_result :: "nat \<Rightarrow> pyexn option"
  recv_events :: "recv_event list"

fun send_all :: "(nat \<Rightarrow> pyexn option) \<Rightarrow> nat \<Rightarrow> string list \<Rightarrow> pyexn option" where
  "send_all sr i [] = None"
| "send_all sr i (p # ps) = (case sr i of Some e \<Rightarrow> Some e | None \<Rightarrow> send_all sr (Suc i) ps)"

text \<open>
  The read loop: an empty chunk (the peer closed) and \<^verbatim>\<open>socket.timeout\<close> both leave the
  loop; any other exception propagates.
\<close>

fun recv_loop :: "recv_event list \<Rightarrow> string list \<Rightarrow> pyexn + string list" where
  "recv_loop [] chunks = Inr chunks"
| "recv_loop (Recv c # es) chunks = (if c = [] then Inr chunks else recv_loop es (chunks @ [c]))"
| "recv_loop (RecvRaise e # es) chunks = (if e = SocketTimeout then Inr chunks else Inl e)"

text \<open>
  \<^verbatim>\<open>format_output\<close> is the same function in both clients. Rendering is done by the
  library (\<^verbatim>\<open>json.dumps\<close>, \<^verbatim>\<open>pprint.pformat\<close>, \<^verbatim>\<open>str\<close>) and by the text layout; the
  parameter \<open>render\<close> stands for it on a dictionary that is not empty. On the empty
  dictionary the three library renderers print \<^verbatim>\<open>{}\<close> and the text branch returns
  \<^verbatim>\<open>(no data)\<close>; every format name other than json, pretty and raw is the text branch.
\<close>

definition format_output :: "(string \<Rightarrow> pydict \<Rightarrow> string) \<Rightarrow> pydict \<Rightarrow> string \<Rightarrow> string" where
  "format_output render data output_format =
     (if data = []
      then (if output_format = ''json'' \<or> output_format = ''pretty'' \<or> output_format = ''raw''
            then ''{}'' else ''(no data)'')
      else render output_format data)"

text \<open>\<^verbatim>\<open>str(v)\<close> inside an f-string; \<^verbatim>\<open>str\<close> of a dictionary is the raw rendering.\<close>

fun py_str :: "(string \<Rightarrow> pydict \<Rightarrow> string) \<Rightarrow> pyval \<Rightarrow> string" where
  "py_str render PNone = ''None''"
| "py_str render (PInt i) = py_str_int i"
| "py_str render (PStr s) = s"
| "py_str render (PDict d) = (if d = [] then ''{}'' else render ''raw'' d)"

text \<open>
  The name of a value's type and the \<^verbatim>\<open>repr\<close> of a key, for messages (a dictionary is
  not hashable and never is a key).
\<close>

fun type_name :: "pyval \<Rightarrow> string" where
  "type_name PNone = ''NoneType''"
| "type_name (PInt i) = ''int''"
| "type_name (PStr s) = ''str''"
| "type_name (PDict d) = ''dict''"

fun py_repr :: "pyval \<Rightarrow> string" where
  "py_repr PNone = ''None''"
| "py_repr (PInt i) = py_str_int i"
| "py_repr (PStr s) = quoted s"
| "py_repr (PDict d) = ''{...}''"

text \<open>
  The bulk merge, one entry at a time. \<^verbatim>\<open>entry.pop("channel")\<close> raises KeyError without
  the key; \<^verbatim>\<open>ch not in merged\<close> needs a hashable \<^verbatim>\<open>ch\<close>; \<^verbatim>\<open>merged[ch].update\<close> needs a
  dictionary under \<^verbatim>\<open>ch\<close>.
\<close>

definition merge_entry :: "pydict \<Rightarrow> pydict \<Rightarrow> pyexn + pydict" where
  "merge_entry merged entry =
     (case map_of entry (PStr ''channel'') of
        None \<Rightarrow> Inl (KeyError (quoted ''channel''))
      | Some ch \<Rightarrow>
          (let entry' = AList.delete (PStr ''channel'') entry in
           if ch = PNone then Inr (dict_update merged entry')
           else (case ch of
                   PDict _ \<Rightarrow> Inl (TypeError (''unhashable type: '' @ quoted ''dict''))
                 | _ \<Rightarrow>
                     (let merged' = (if map_of merged ch = None
                                     then AList.update ch (PDict []) merged else merged)
                      in case map_of merged' ch of
                           Some (PDict d) \<Rightarrow> Inr (AList.update ch (PDict (dict_update d entry')) merged')
                         | Some v \<Rightarrow>
                             Inl (AttributeError (quoted (type_name v)
                                    @ '' object has no attribute '' @ quoted ''update''))
                         | None \<Rightarrow> Inl (KeyError (py_repr ch))))))"

fun merge_all :: "pydict \<Rightarrow> pydict list \<Rightarrow> pyexn + pydict" where
  "merge_all merged [] = Inr merged"
| "merge_all merged (entry # entries) =
     (case merge_entry merged entry of
        Inl e \<Rightarrow> Inl e
      | Inr merged' \<Rightarrow> merge_all merged' entries)"

text \<open>
  \<^verbatim>\<open>result\<close> of the bulk branch: the parsed lines that are truthy (a dictionary that is
  not empty).
\<close>

definition parsed_entries :: "(string \<Rightarrow> pydict option) \<Rightarrow> string list \<Rightarrow> pydict list" where
  "parsed_entries parse lines =
     concat (map (\<lambda>line. case parse line of None \<Rightarrow> [] | Some d \<Rightarrow> if d = [] then [] else [d]) lines)"

text \<open>\<^verbatim>\<open>next(k for k in parsed if k != "channel")\<close> and the same for the value.\<close>

definition first_other_key :: "pydict \<Rightarrow> pyexn + pyval" where
  "first_other_key parsed =
     (case filter (\<lambda>(k, v). k \<noteq> PStr ''channel'') parsed of
        [] \<Rightarrow> Inl StopIteration
      | (k, v) # _ \<Rightarrow> Inr k)"

definition first_other_value :: "pydict \<Rightarrow> pyexn + pyval" where
  "first_other_value parsed =
     (case filter (\<lambda>(k, v). k \<noteq> PStr ''channel'') parsed of
        [] \<Rightarrow> Inl StopIteration
      | (k, v) # _ \<Rightarrow> Inr v)"

subsection \<open>ad4d.py\<close>

definition ad4d_bulk_cmds :: "string list" where
  "ad4d_bulk_cmds =
     map (\<lambda>k. ''GET '' @ k) ad4d_DEVICE_GET_ONLY_KEYS @
     concat (map (\<lambda>ch. map (\<lambda>k. ''GET '' @ ch @ '' '' @ k)
                          (ad4d_CHANNEL_GET_SET_KEYS @ ad4d_CHANNEL_GET_ONLY_KEYS))
                 [''1'', ''2'', ''3'', ''4''])"

definition wire :: "string \<Rightarrow> string" where
  "wire cmd = ''< '' @ cmd @ '' >'' @ [CHR 0x0D, CHR 0x0A]"

definition opt_str :: "string option \<Rightarrow> string" where
  "opt_str c = (case c of None \<Rightarrow> ''None'' | Some s \<Rightarrow> s)"

text \<open>
  The candidate frames: the reply text is cut at every \<^verbatim>\<open>< REP \<close>, a piece that is blank
  or contains \<^verbatim>\<open>ERR\<close> is left out, and the keyword is put back in front of the others.
\<close>

definition ad4d_lines :: "string \<Rightarrow> string list" where
  "ad4d_lines raw =
     map (\<lambda>part. ''< REP '' @ py_strip part)
       (filter (\<lambda>part. py_strip part \<noteq> [] \<and> \<not> py_in ''ERR'' part) (py_split_sep ''< REP '' raw))"

text \<open>
  The address of a parsed frame as the scan computes it: \<^verbatim>\<open>keyname\<close>, \<^verbatim>\<open>channel\<close> and
  \<^verbatim>\<open>match_key\<close>.
\<close>

definition ad4d_match_key :: "(string \<Rightarrow> pydict \<Rightarrow> string) \<Rightarrow> pydict \<Rightarrow> pyexn + string" where
  "ad4d_match_key render parsed =
     (case first_other_key parsed of
        Inl e \<Rightarrow> Inl e
      | Inr keyname \<Rightarrow>
          (let channel = (case map_of parsed (PStr ''channel'') of None \<Rightarrow> PNone | Some c \<Rightarrow> c)
           in Inr (if channel \<noteq> PNone
                   then py_str render channel @ '' '' @ py_str render keyname
                   else py_str render keyname)))"

text \<open>The value the single-command branch returns when nothing matched.\<close>

definition ad4d_no_data :: "(string \<Rightarrow> pydict \<Rightarrow> string) \<Rightarrow> string \<Rightarrow> bool \<Rightarrow> pyval" where
  "ad4d_no_data render output_format bulk =
     (if bulk \<or> output_format \<noteq> ''text''
      then PStr (format_output render [] output_format) else PNone)"

text \<open>The scan of the single-command branch, in arrival order.\<close>

fun ad4d_scan ::
  "(string \<Rightarrow> pydict \<Rightarrow> string) \<Rightarrow> string option \<Rightarrow> string option \<Rightarrow> string \<Rightarrow> bool \<Rightarrow>
     string list \<Rightarrow> pyexn + pyval" where
  "ad4d_scan render command expect_key output_format bulk [] =
     Inr (ad4d_no_data render output_format bulk)"
| "ad4d_scan render command expect_key output_format bulk (line # lines) =
     (case ad4d_parse_report_line line of
        None \<Rightarrow> ad4d_scan render command expect_key output_format bulk lines
      | Some parsed \<Rightarrow>
          if parsed = [] then ad4d_scan render command expect_key output_format bulk lines
          else
            (case ad4d_match_key render parsed of
               Inl e \<Rightarrow> Inl e
             | Inr match_key \<Rightarrow>
                 if expect_key = None \<or> expect_key = Some match_key
                 then (if command \<noteq> None \<and> command \<noteq> Some [] \<and> startswith (the command) ''SET''
                       then Inr PNone
                       else if bulk \<or> output_format \<noteq> ''text''
                       then Inr (PStr (format_output render parsed output_format))
                       else (case first_other_key parsed of
                               Inl e \<Rightarrow> Inl e
                             | Inr keyname \<Rightarrow>
                                 (case map_of parsed keyname of
                                    None \<Rightarrow> Inl (KeyError (py_repr keyname))
                                  | Some v \<Rightarrow> Inr v)))
                 else ad4d_scan render command expect_key output_format bulk lines))"

text \<open>What \<^verbatim>\<open>send_command\<close> does with the text it has read.\<close>

definition ad4d_reply ::
  "(string \<Rightarrow> pydict \<Rightarrow> string) \<Rightarrow> string option \<Rightarrow> string option \<Rightarrow> string \<Rightarrow> bool \<Rightarrow>
     string \<Rightarrow> pyexn + pyval" where
  "ad4d_reply render command expect_key output_format bulk raw =
     (let lines = ad4d_lines raw in
      if bulk
      then (case merge_all [] (parsed_entries ad4d_parse_report_line lines) of
              Inl e \<Rightarrow> Inl e
            | Inr merged \<Rightarrow> Inr (PStr (format_output render merged output_format)))
      else ad4d_scan render command expect_key output_format bulk lines)"

text \<open>What is written to the socket: one line per command.\<close>

definition ad4d_payloads :: "bool \<Rightarrow> string option \<Rightarrow> string list" where
  "ad4d_payloads bulk command =
     (if bulk then map wire ad4d_bulk_cmds else [wire (opt_str command)])"

text \<open>The body of the \<^verbatim>\<open>try\<close> block: an exception is the value \<open>Inl\<close>.\<close>

definition ad4d_send_command_body ::
  "(string \<Rightarrow> pydict \<Rightarrow> string) \<Rightarrow> sock_behaviour \<Rightarrow> string option \<Rightarrow> string option \<Rightarrow>
     string \<Rightarrow> bool \<Rightarrow> pyexn + pyval" where
  "ad4d_send_command_body render sock command expect_key output_format bulk =
     (case connect_result sock of
        Some e \<Rightarrow> Inl e
      | None \<Rightarrow>
          (case send_all (send_result sock) 0 (ad4d_payloads bulk command) of
             Some e \<Rightarrow> Inl e
           | None \<Rightarrow>
               (case recv_loop (recv_events sock) [] of
                  Inl e \<Rightarrow> Inl e
                | Inr chunks \<Rightarrow>
                    ad4d_reply render command expect_key output_format bulk (concat chunks))))"

text \<open>\<^verbatim>\<open>except Exception as e: return f"(error: {e})"\<close>.\<close>

definition error_result :: "pyexn \<Rightarrow> pyval" where
  "error_result e = PStr (''(error: '' @ exn_str e @ '')'')"

definition ad4d_send_command ::
  "(string \<Rightarrow> pydict \<Rightarrow> string) \<Rightarrow> sock_behaviour \<Rightarrow> string option \<Rightarrow> string option \<Rightarrow>
     string \<Rightarrow> bool \<Rightarrow> pyval" where
  "ad4d_send_command render sock command expect_key output_format bulk =
     (case ad4d_send_command_body render sock command expect_key output_format bulk of
        Inl e \<Rightarrow> error_result e
      | Inr v \<Rightarrow> v)"

subsection \<open>p10t.py\<close>

definition p10t_bulk_cmds :: "string list" where
  "p10t_bulk_cmds =
     map (\<lambda>k. ''GET '' @ k) p10t_DEVICE_GET_ONLY_KEYS @
     concat (map (\<lambda>ch. map (\<lambda>k. ''GET '' @ ch @ '' '' @ k) p10t_CHANNEL_GET_SET_KEYS)
                 [''1'', ''2''])"

text \<open>The candidate frames of p10t.py: only blank pieces are left out.\<close>

definition p10t_lines :: "string \<Rightarrow> string list" where
  "p10t_lines raw =
     map (\<lambda>part. ''< REPORT '' @ py_strip part)
       (filter (\<lambda>part. py_strip part \<noteq> []) (py_split_sep ''< REPORT '' raw))"

definition p10t_match_key :: "(string \<Rightarrow> pydict \<Rightarrow> string) \<Rightarrow> pydict \<Rightarrow> pyexn + string" where
  "p10t_match_key render parsed =
     (case map_of parsed (PStr ''channel'') of
        None \<Rightarrow> Inl (KeyError (quoted ''channel''))
      | Some channel \<Rightarrow>
          (case first_other_key parsed of
             Inl e \<Rightarrow> Inl e
           | Inr keyname \<Rightarrow>
               Inr (if channel \<noteq> PNone
                    then py_str render channel @ '' '' @ py_str render keyname
                    else py_str render keyname)))"

definition p10t_no_data :: "(string \<Rightarrow> pydict \<Rightarrow> string) \<Rightarrow> string \<Rightarrow> bool \<Rightarrow> pyval" where
  "p10t_no_data render output_format bulk =
     (if bulk \<or> output_format \<noteq> ''text''
      then PStr (format_output render [] output_format) else PStr ''(no match)'')"

fun p10t_scan ::
  "(string \<Rightarrow> pydict \<Rightarrow> string) \<Rightarrow> string option \<Rightarrow> string \<Rightarrow> bool \<Rightarrow> string list \<Rightarrow>
     pyexn + pyval" where
  "p10t_scan render expect_key output_format bulk [] =
     Inr (p10t_no_data render output_format bulk)"
| "p10t_scan render expect_key output_format bulk (line # lines) =
     (case p10t_parse_report_line line of
        None \<Rightarrow> p10t_scan render expect_key output_format bulk lines
      | Some parsed \<Rightarrow>
          if parsed = [] then p10t_scan render expect_key output_format bulk lines
          else
            (case p10t_match_key render parsed of
               Inl e \<Rightarrow> Inl e
             | Inr match_key \<Rightarrow>
                 if expect_key = Some match_key
                 then (if bulk \<or> output_format \<noteq> ''text''
                       then Inr (PStr (format_output render parsed output_format))
                       else first_other_value parsed)
                 else p10t_scan render expect_key output_format bulk lines))"

definition p10t_reply ::
  "(string \<Rightarrow> pydict \<Rightarrow> string) \<Rightarrow> string option \<Rightarrow> string \<Rightarrow> bool \<Rightarrow> string \<Rightarrow> pyexn + pyval" where
  "p10t_reply render expect_key output_format bulk raw =
     (let lines = p10t_lines raw in
      if bulk
      then (case merge_all [] (parsed_entries p10t_parse_report_line lines) of
              Inl e \<Rightarrow> Inl e
            | Inr merged \<Rightarrow> Inr (PStr (format_output render merged output_format)))
      else p10t_scan render expect_key output_format bulk lines)"

text \<open>
  The inner \<^verbatim>\<open>try\<close> of p10t.py covers reading and scanning; its handler turns a
  \<^verbatim>\<open>socket.timeout\<close> that reaches it into the string \<^verbatim>\<open>(timeout)\<close>.
\<close>

definition p10t_read_and_scan ::
  "(string \<Rightarrow> pydict \<Rightarrow> string) \<Rightarrow> sock_behaviour \<Rightarrow> string option \<Rightarrow> string \<Rightarrow> bool \<Rightarrow>
     pyexn + pyval" where
  "p10t_read_and_scan render sock expect_key output_format bulk =
     (case (case recv_loop (recv_events sock) [] of
              Inl e \<Rightarrow> Inl e
            | Inr chunks \<Rightarrow> p10t_reply render expect_key output_format bulk (concat chunks)) of
        Inl e \<Rightarrow> if e = SocketTimeout then Inr (PStr ''(timeout)'') else Inl e
      | Inr v \<Rightarrow> Inr v)"

definition p10t_payloads :: "bool \<Rightarrow> string option \<Rightarrow> string list" where
  "p10t_payloads bulk command =
     (if bulk then map wire p10t_bulk_cmds else [wire (opt_str command)])"

definition p10t_send_command_body ::
  "(string \<Rightarrow> pydict \<Rightarrow> string) \<Rightarrow> sock_behaviour \<Rightarrow> string option \<Rightarrow> string option \<Rightarrow>
     string \<Rightarrow> bool \<Rightarrow> pyexn + pyval" where
  "p10t_send_command_body render sock command expect_key output_format bulk =
     (case connect_result sock of
        Some e \<Rightarrow> Inl e
      | None \<Rightarrow>
          (case send_all (send_result sock) 0 (p10t_payloads bulk command) of
             Some e \<Rightarrow> Inl e
           | None \<Rightarrow> p10t_read_and_scan render sock expect_key output_format bulk))"

definition p10t_send_command ::
  "(string \<Rightarrow> pydict \<Rightarrow> string) \<Rightarrow> sock_behaviour \<Rightarrow> string option \<Rightarrow> string option \<Rightarrow>
     string \<Rightarrow> bool \<Rightarrow> pyval" where
  "p10t_send_command render sock command expect_key output_format bulk =
     (case p10t_send_command_body render sock command expect_key output_format bulk of
        Inl e \<Rightarrow> error_result e
      | Inr v \<Rightarrow> v)"

section \<open>The command line: \<^verbatim>\<open>build_command\<close> and \<^verbatim>\<open>main\<close>\<close>

text \<open>
  \<^verbatim>\<open>build_command(channel, key)\<close>; \<^verbatim>\<open>key.upper()\<close> on \<^verbatim>\<open>None\<close> raises AttributeError.
  (The dash of the channel message is an en dash in ad4d.py.)
\<close>

definition ad4d_build_command :: "string option \<Rightarrow> string option \<Rightarrow> pyexn + string" where
  "ad4d_build_command channel key0 =
     (case key0 of
        None \<Rightarrow> Inl (AttributeError (quoted ''NoneType'' @ '' object has no attribute '' @ quoted ''upper''))
      | Some k \<Rightarrow>
          (let key = py_upper k in
           if key \<notin> set ad4d_ALL_KEYS then Inl (ValueError (''Unknown key: '' @ key))
           else if key \<in> set ad4d_DEVICE_GET_ONLY_KEYS \<or> key \<in> set ad4d_DEVICE_GET_SET_KEYS
           then Inr key
           else if channel \<notin> Some ` {''1'', ''2'', ''3'', ''4''}
           then Inl (ValueError ''Channel must be 1-4 for channel-level keys'')
           else Inr (the channel @ '' '' @ key)))"

definition p10t_build_command :: "string option \<Rightarrow> string option \<Rightarrow> pyexn + string" where
  "p10t_build_command channel key0 =
     (case key0 of
        None \<Rightarrow> Inl (AttributeError (quoted ''NoneType'' @ '' object has no attribute '' @ quoted ''upper''))
      | Some k \<Rightarrow>
          (let key = py_upper k in
           if key \<notin> set p10t_ALL_KEYS then Inl (ValueError (''Unknown key: '' @ key))
           else if key \<in> set p10t_DEVICE_GET_ONLY_KEYS \<or> key \<in> set p10t_DEVICE_GET_SET_KEYS
           then Inr key
           else if channel \<notin> Some ` {''1'', ''2''}
           then Inl (ValueError ''Channel must be 1 or 2 for channel-level keys'')
           else Inr (the channel @ '' '' @ key)))"

text \<open>The parsed command line (\<^verbatim>\<open>args\<close>).\<close>

record cli_args =
  arg_list :: bool
  arg_host :: "string option"
  arg_get :: bool
  arg_set :: bool
  arg_channel :: "string option"
  arg_key :: "string option"
  arg_value :: "string option"
  arg_output_format :: string
  arg_json :: bool

text \<open>A call of \<^verbatim>\<open>send_command\<close>: the one place where \<^verbatim>\<open>main\<close> opens a socket.\<close>

record net_call =
  call_command :: "string option"
  call_expect_key :: "string option"
  call_output_format :: string
  call_bulk :: bool

text \<open>
  What \<^verbatim>\<open>main\<close> does with a command line, up to its first \<^verbatim>\<open>send_command\<close>:
  it lists the keys and exits 0, prints an error and exits 1 without any call, dies of an
  uncaught exception, reads every key of one channel (the calls whose address
  \<^verbatim>\<open>build_command\<close> accepts, in order), makes the bulk query, or makes the one
  \<^verbatim>\<open>SET\<close> or \<^verbatim>\<open>GET\<close> call.
\<close>

datatype main_action =
    ListKeys
  | ExitError string
  | Uncaught pyexn
  | GetAllChannel "net_call list"
  | GetBulk net_call
  | SetCall net_call
  | GetCall net_call

definition truthy :: "string option \<Rightarrow> bool" where
  "truthy s = (s \<noteq> None \<and> s \<noteq> Some [])"

definition ad4d_brace_keys :: "string list" where
  "ad4d_brace_keys =
     [''CHAN_NAME'', ''DEVICE_ID'', ''GROUP_CHANNEL'', ''GROUP_CHANNEL2'', ''TX_DEVICE_ID'',
      ''SLOT_TX_DEVICE_ID'']"

definition ad4d_main :: "cli_args \<Rightarrow> main_action" where
  "ad4d_main args =
     (if arg_list args then ListKeys
      else if \<not> truthy (arg_host args) then ExitError ''Error: --host is required''
      else
        (let output_format = (if arg_json args then ''json'' else arg_output_format args) in
         if arg_get args \<and> \<not> truthy (arg_key args)
         then (if truthy (arg_channel args)
               then GetAllChannel
                      (concat (map (\<lambda>key. case ad4d_build_command (arg_channel args) (Some key) of
                                            Inl e \<Rightarrow> []
                                          | Inr full_key \<Rightarrow>
                                              [\<lparr>call_command = Some (''GET '' @ full_key),
                                                call_expect_key = Some full_key,
                                                call_output_format = ''text'', call_bulk = False\<rparr>])
                                   (ad4d_CHANNEL_GET_SET_KEYS @ ad4d_CHANNEL_GET_ONLY_KEYS)))
               else GetBulk \<lparr>call_command = None, call_expect_key = None,
                             call_output_format = output_format, call_bulk = True\<rparr>)
         else
           (case ad4d_build_command (arg_channel args) (arg_key args) of
              Inl (ValueError m) \<Rightarrow> ExitError (''Error: '' @ m)
            | Inl e \<Rightarrow> Uncaught e
            | Inr full_key \<Rightarrow>
                if arg_set args
                then (if py_upper (the (arg_key args)) \<in> set ad4d_DEVICE_GET_ONLY_KEYS
                      then ExitError (''Error: '' @ py_upper (the (arg_key args))
                                        @ '' is read-only and cannot be set'')
                      else (case arg_value args of
                              None \<Rightarrow> ExitError ''Error: --value is required for --set''
                            | Some v \<Rightarrow>
                                (let val = (if py_upper (the (arg_key args)) \<in> set ad4d_brace_keys
                                            then ''{'' @ v @ ''}'' else v)
                                 in SetCall \<lparr>call_command = Some (''SET '' @ full_key @ '' '' @ val),
                                              call_expect_key = None,
                                              call_output_format = output_format,
                                              call_bulk = False\<rparr>)))
                else if arg_get args
                then GetCall \<lparr>call_command = Some (''GET '' @ full_key),
                               call_expect_key = Some full_key,
                               call_output_format = output_format, call_bulk = False\<rparr>
                else ExitError ''Error: must specify --get or --set'')))"

definition p10t_main :: "cli_args \<Rightarrow> main_action" where
  "p10t_main args =
     (if arg_list args then ListKeys
      else if \<not> truthy (arg_host args) then ExitError ''Error: --host is required''
      else
        (let output_format = (if arg_json args then ''json'' else arg_output_format args) in
         if arg_get args \<and> \<not> truthy (arg_key args)
         then (if truthy (arg_channel args)
               then GetAllChannel
                      (concat (map (\<lambda>key. case p10t_build_command (arg_channel args) (Some key) of
                                            Inl e \<Rightarrow> []
                                          | Inr full_key \<Rightarrow>
                                              [\<lparr>call_command = Some (''GET '' @ full_key),
                                                call_expect_key = Some full_key,
                                                call_output_format = ''text'', call_bulk = False\<rparr>])
                                   p10t_CHANNEL_GET_SET_KEYS))
               else GetBulk \<lparr>call_command = None, call_expect_key = None,
                             call_output_format = output_format, call_bulk = True\<rparr>)
         else
           (case p10t_build_command (arg_channel args) (arg_key args) of
              Inl (ValueError m) \<Rightarrow> ExitError (''Error: '' @ m)
            | Inl e \<Rightarrow> Uncaught e
            | Inr full_key \<Rightarrow>
                if arg_set args
                then (if py_upper (the (arg_key args)) \<in> set p10t_DEVICE_GET_ONLY_KEYS
                      then ExitError (''Error: '' @ py_upper (the (arg_key args))
                                        @ '' is read-only and cannot be set'')
                      else (case arg_value args of
                              None \<Rightarrow> ExitError ''Error: --value is required for --set''
                            | Some v \<Rightarrow>
                                SetCall \<lparr>call_command = Some (''SET '' @ full_key @ '' '' @ v),
                                         call_expect_key = Some full_key,
                                         call_output_format = output_format,
                                         call_bulk = False\<rparr>))
                else if arg_get args
                then GetCall \<lparr>call_command = Some (''GET '' @ full_key),
                               call_expect_key = Some full_key,
                               call_output_format = output_format, call_bulk = False\<rparr>
                else ExitError ''Error: must specify --get or --set'')))"

text \<open>Whether an action opens a socket.\<close>

fun opens_socket :: "main_action \<Rightarrow> bool" where
  "opens_socket ListKeys = False"
| "opens_socket (ExitError m) = False"
| "opens_socket (Uncaught e) = False"
| "opens_socket (GetAllChannel cs) = (cs \<noteq> [])"
| "opens_socket (GetBulk c) = True"
| "opens_socket (SetCall c) = True"
| "opens_socket (GetCall c) = True"

section \<open>The monitor (monitor.py)\<close>

text \<open>
  \<^verbatim>\<open>reply_channel_re = re.compile(r"< REP (\d+) (\S+)\s+(\S+) >")\<close>,
  \<^verbatim>\<open>reply_device_re = re.compile(r"< REP (\S+)\s+{([^}]*)} >")\<close>,
  \<^verbatim>\<open>report_re = re.compile(r"< REPORT (\S+)(?: (\S+))?(?: (.+))? >")\<close>,
  \<^verbatim>\<open>sample_re = re.compile(r"< SAMPLE (\d+) ALL (.+) >")\<close>.
\<close>

definition reply_channel_re :: "rx list" where
  "reply_channel_re =
     lits ''< REP '' @ [Open 1, Atom CDigit Plus, Close 1] @ lits '' '' @
     [Open 2, Atom CNonSpace Plus, Close 2, Atom CSpace Plus,
      Open 3, Atom CNonSpace Plus, Close 3] @ lits '' >''"

definition reply_device_re :: "rx list" where
  "reply_device_re =
     lits ''< REP '' @ [Open 1, Atom CNonSpace Plus, Close 1, Atom CSpace Plus] @ lits ''{'' @
     [Open 2, Atom (CNoneOf ''}'') Star, Close 2] @ lits ''} >''"

definition report_re :: "rx list" where
  "report_re =
     lits ''< REPORT '' @ [Open 1, Atom CNonSpace Plus, Close 1,
       OptSeq (lits '' '' @ [Open 2, Atom CNonSpace Plus, Close 2]),
       OptSeq (lits '' '' @ [Open 3, Atom CDot Plus, Close 3])] @ lits '' >''"

definition sample_re :: "rx list" where
  "sample_re =
     lits ''< SAMPLE '' @ [Open 1, Atom CDigit Plus, Close 1] @ lits '' ALL '' @
     [Open 2, Atom CDot Plus, Close 2] @ lits '' >''"

text \<open>\<^verbatim>\<open>match.groups()\<close> of a pattern with \<open>n\<close> groups.\<close>

definition groups :: "nat \<Rightarrow> (nat \<Rightarrow> string option) \<Rightarrow> string option list" where
  "groups n g = map g [1..<Suc n]"

text \<open>
  The Metric Sink as the monitor sees it: a \<^verbatim>\<open>redis_client.hset(name, key, value)\<close> and
  a \<^verbatim>\<open>log(message, **fields)\<close>, in the order they happen.
\<close>

datatype sink_event =
    HSet string string string
  | Log string "(string \<times> string) list"

definition handle_response :: "string \<Rightarrow> string \<Rightarrow> string \<Rightarrow> sink_event list" where
  "handle_response host line device_type =
     (let channel_match = re_match reply_channel_re line;
          device_match = re_match reply_device_re line;
          unparsed = [Log (host @ '': unparsed line: '' @ line) [(''PRIORITY'', ''4'')]];
          emit = (\<lambda>redis_key channel key val.
            [HSet redis_key key val,
             Log (redis_key @ '' '' @ key @ '' = '' @ val)
               ([(''REDIS_KEY'', redis_key), (''SHURE_HOST'', host), (''SHURE_DEVICE'', device_type),
                 (''SHURE_KEY'', key), (''SHURE_VALUE'', val),
                 (''SHURE_METRIC'',
                    if startswith key ''AUDIO_IN_LVL_'' \<or> startswith key ''AUDIO_LEVEL_''
                    then ''AUDIO_LEVEL'' else py_upper key)]
                @ (if truthy channel then [(''SHURE_CHANNEL'', the channel)] else [])
                @ (if startswith key ''AUDIO_IN_LVL_'' \<or> startswith key ''AUDIO_LEVEL_''
                   then (if suffix ''_L'' key then [(''SHURE_SIDE'', ''L'')]
                         else if suffix ''_R'' key then [(''SHURE_SIDE'', ''R'')] else [])
                   else []))])
      in case device_match of
           Some g \<Rightarrow>
             (case (g 1, g 2) of
                (Some k, Some v) \<Rightarrow> emit (host @ '':device'') None (py_strip k) (py_strip v)
              | _ \<Rightarrow> unparsed)
         | None \<Rightarrow>
             (case channel_match of
                Some g \<Rightarrow>
                  (case (g 1, g 2, g 3) of
                     (Some c, Some k, Some v) \<Rightarrow>
                       emit (host @ '':channel:'' @ py_strip c) (Some (py_strip c))
                         (py_strip k) (py_strip v)
                   | _ \<Rightarrow> unparsed)
              | None \<Rightarrow> unparsed))"

definition SAMPLE_KEYS :: "string list" where
  "SAMPLE_KEYS =
     [''CHANNEL_QUALITY'', ''AUDIO_LED_BITMAP'', ''AUDIO_LEVEL_PEAK'', ''AUDIO_LEVEL_RMS'',
      ''ANTENNA_STATUS'', ''RSSI_LED_BITMAP_A'', ''RSSI_A'', ''RSSI_LED_BITMAP_B'', ''RSSI_B'']"

text \<open>The body of the loop of \<^verbatim>\<open>handle_sample\<close>, over the zipped pairs.\<close>

fun sample_loop :: "string \<Rightarrow> string \<Rightarrow> string \<Rightarrow> string \<Rightarrow> (string \<times> string) list \<Rightarrow> sink_event list" where
  "sample_loop host redis_key ch_num device_type [] = []"
| "sample_loop host redis_key ch_num device_type ((k, v) # kvs) =
     HSet redis_key k v #
     Log (redis_key @ '' '' @ k @ '' = '' @ v)
       [(''REDIS_KEY'', redis_key), (''SHURE_HOST'', host), (''SHURE_DEVICE'', device_type),
        (''SHURE_CHANNEL'', ch_num), (''SHURE_KEY'', k), (''SHURE_VALUE'', v), (''SHURE_METRIC'', k)] #
     sample_loop host redis_key ch_num device_type kvs"

definition handle_sample :: "string \<Rightarrow> string \<Rightarrow> string \<Rightarrow> string \<Rightarrow> sink_event list" where
  "handle_sample host ch_num raw device_type =
     sample_loop host (host @ '':channel:'' @ ch_num) ch_num device_type
       (zip SAMPLE_KEYS (take (length SAMPLE_KEYS) (py_split raw)))"

text \<open>
  The two call sites that unpack \<^verbatim>\<open>*match.groups()\<close> between \<^verbatim>\<open>redis_client\<close> and
  \<^verbatim>\<open>device_type\<close>. \<^verbatim>\<open>handle_sample\<close> has five parameters and \<^verbatim>\<open>handle_response\<close> four, so
  the call binds only when the groups are two, respectively one; otherwise Python raises
  TypeError before the function body runs. Every group that is passed on is a string here.
\<close>

definition call_handle_sample :: "string \<Rightarrow> string option list \<Rightarrow> string \<Rightarrow> pyexn + sink_event list" where
  "call_handle_sample host star_args device_type =
     (case star_args of
        [Some ch_num, Some raw] \<Rightarrow> Inr (handle_sample host ch_num raw device_type)
      | [_, _] \<Rightarrow> Inl (AttributeError (quoted ''NoneType'' @ '' object has no attribute '' @ quoted ''split''))
      | _ \<Rightarrow>
          if length star_args < 2
          then Inl (TypeError ''handle_sample() missing required positional arguments'')
          else Inl (TypeError (''handle_sample() takes 5 positional arguments but ''
                                 @ py_str_int (int (length star_args) + 3) @ '' were given'')))"

definition call_handle_response :: "string \<Rightarrow> string option list \<Rightarrow> string \<Rightarrow> pyexn + sink_event list" where
  "call_handle_response host star_args device_type =
     (case star_args of
        [Some line] \<Rightarrow> Inr (handle_response host line device_type)
      | [None] \<Rightarrow> Inl (TypeError ''expected string or bytes-like object'')
      | _ \<Rightarrow>
          if length star_args < 1
          then Inl (TypeError ''handle_response() missing required positional arguments'')
          else Inl (TypeError (''handle_response() takes 4 positional arguments but ''
                                 @ py_str_int (int (length star_args) + 3) @ '' were given'')))"

text \<open>
  \<^verbatim>\<open>process_raw_data\<close> of the polling monitor: the loop over the pieces of
  \<^verbatim>\<open>raw.split("<")\<close>. The \<^verbatim>\<open>return\<close> of the sample branch leaves the function.
\<close>

fun process_parts :: "string \<Rightarrow> string \<Rightarrow> string list \<Rightarrow> sink_event list \<times> pyexn option" where
  "process_parts host device_type [] = ([], None)"
| "process_parts host device_type (p # ps) =
     (let part = py_strip p in
      if part = [] then process_parts host device_type ps
      else
        (let line = ''< '' @ part in
         if startswith line ''< SAMPLE''
         then (case re_match sample_re line of
                 Some g \<Rightarrow>
                   (case call_handle_sample host (groups 2 g) device_type of
                      Inl e \<Rightarrow> ([], Some e)
                    | Inr evs \<Rightarrow> (evs, None))
               | None \<Rightarrow> ([], None))
         else (case process_parts host device_type ps of
                 (evs, r) \<Rightarrow> (handle_response host line device_type @ evs, r))))"

definition process_raw_data :: "string \<Rightarrow> string \<Rightarrow> string \<Rightarrow> sink_event list \<times> pyexn option" where
  "process_raw_data raw host device_type = process_parts host device_type (py_split_sep ''<'' raw)"

text \<open>
  The body of the inner loop of \<^verbatim>\<open>run_passive_monitor\<close> for one line taken off the
  buffer.
\<close>

definition passive_line :: "string \<Rightarrow> string \<Rightarrow> string \<Rightarrow> pyexn + sink_event list" where
  "passive_line host device_type line0 =
     (let line = py_strip line0 in
      if startswith line ''< SAMPLE''
      then (case re_match sample_re line of
              Some g \<Rightarrow> call_handle_sample host (groups 2 g) device_type
            | None \<Rightarrow> Inr [])
      else (case re_match report_re line of
              Some g \<Rightarrow> call_handle_response host (groups 3 g) device_type
            | None \<Rightarrow> Inr [Log (host @ '': unparsed line: '' @ line) []]))"

text \<open>
  \<^verbatim>\<open>while b"\n" in buffer: line, buffer = buffer.split(b"\n", 1); ...\<close>: the events of the
  lines handled, and either the exception that left the loop or the bytes still buffered.
\<close>

fun passive_drain :: "string \<Rightarrow> string \<Rightarrow> string \<Rightarrow> string \<Rightarrow> sink_event list \<times> (pyexn + string)" where
  "passive_drain host device_type cur [] = ([], Inr cur)"
| "passive_drain host device_type cur (c # cs) =
     (if c = CHR 0x0A
      then (case passive_line host device_type cur of
              Inl e \<Rightarrow> ([], Inl e)
            | Inr evs \<Rightarrow>
                (case passive_drain host device_type [] cs of
                   (evs', r) \<Rightarrow> (evs @ evs', r)))
      else passive_drain host device_type (cur @ [c]) cs)"

text \<open>The triples an event list hands to the store, in order.\<close>

fun forwarded :: "sink_event list \<Rightarrow> (string \<times> string \<times> string) list" where
  "forwarded [] = []"
| "forwarded (HSet name k v # evs) = (name, k, v) # forwarded evs"
| "forwarded (Log m fs # evs) = forwarded evs"

section \<open>Notions used to state the properties\<close>

text \<open>
  The text of a direct reply of the multi-channel family, \<^verbatim>\<open>< REP [scope] KEY value >\<close>,
  with the channel digit as scope, and the value \<^verbatim>\<open>parse_report_line\<close> gives for the scope.
\<close>

definition rep_frame :: "char option \<Rightarrow> string \<Rightarrow> string \<Rightarrow> string" where
  "rep_frame scope key val =
     ''< REP '' @ (case scope of None \<Rightarrow> [] | Some d \<Rightarrow> [d, CHR '' '']) @ key @ '' '' @ val @ '' >''"

definition scope_val :: "char option \<Rightarrow> pyval" where
  "scope_val scope = (case scope of None \<Rightarrow> PNone | Some d \<Rightarrow> PInt (digit_val d))"

text \<open>
  A reply as the data model has it: an optional channel index, a key and a value (the
  point-to-point parser gives \<^verbatim>\<open>None\<close> for a channel frame without a value). \<open>entry_of\<close>
  is the dictionary \<^verbatim>\<open>{"channel": ch, key: value}\<close> both parsers build for it.
\<close>

type_synonym reply = "int option \<times> string \<times> string option"

definition entry_of :: "reply \<Rightarrow> pydict" where
  "entry_of r =
     (case r of (ch, key, val) \<Rightarrow>
        py_dict [(PStr ''channel'', case ch of None \<Rightarrow> PNone | Some n \<Rightarrow> PInt n),
                 (PStr key, case val of None \<Rightarrow> PNone | Some s \<Rightarrow> PStr s)])"

text \<open>
  A merged dictionary read as a Snapshot. Python compares dictionaries without regard to
  insertion order, so two merged dictionaries are equal in Python when they agree as
  maps, at the top and inside every channel: that is the equality of their \<open>snapshot\<close>s.
  \<open>snapshot_get\<close> looks one address up.
\<close>

definition snapshot :: "pydict \<Rightarrow> pyval \<Rightarrow> (pyval + (pyval \<rightharpoonup> pyval)) option" where
  "snapshot d k =
     (case map_of d k of
        None \<Rightarrow> None
      | Some (PDict sub) \<Rightarrow> Some (Inr (map_of sub))
      | Some v \<Rightarrow> Some (Inl v))"

definition snapshot_get :: "pydict \<Rightarrow> int option \<Rightarrow> string \<Rightarrow> pyval option" where
  "snapshot_get d ch key =
     (case ch of
        None \<Rightarrow> map_of d (PStr key)
      | Some n \<Rightarrow>
          (case map_of d (PInt n) of
             Some (PDict sub) \<Rightarrow> map_of sub (PStr key)
           | _ \<Rightarrow> None))"

text \<open>One merge step seen on the Snapshot.\<close>

definition snap_step ::
  "reply \<Rightarrow> (pyval \<Rightarrow> (pyval + (pyval \<rightharpoonup> pyval)) option) \<Rightarrow>
     (pyval \<Rightarrow> (pyval + (pyval \<rightharpoonup> pyval)) option)" where
  "snap_step r S =
     (case r of (ch, key, val) \<Rightarrow>
        (let v = (case val of None \<Rightarrow> PNone | Some s \<Rightarrow> PStr s) in
         case ch of
           None \<Rightarrow> S(PStr key \<mapsto> Inl v)
         | Some n \<Rightarrow>
             S(PInt n \<mapsto> Inr ((case S (PInt n) of Some (Inr sub) \<Rightarrow> sub | _ \<Rightarrow> Map.empty)
                                 (PStr key \<mapsto> v)))))"

text \<open>Every channel index of a merged dictionary holds a dictionary.\<close>

definition channels_are_dicts :: "pydict \<Rightarrow> bool" where
  "channels_are_dicts m = (\<forall>n v. map_of m (PInt n) = Some v \<longrightarrow> (\<exists>d. v = PDict d))"

text \<open>
  A candidate frame that does not answer a request for the address \<open>full_key\<close>: the
  parser rejects it, or the scan does not compute this address for it.
\<close>

definition ad4d_not_for :: "(string \<Rightarrow> pydict \<Rightarrow> string) \<Rightarrow> string \<Rightarrow> string \<Rightarrow> bool" where
  "ad4d_not_for render full_key line =
     (case ad4d_parse_report_line line of
        None \<Rightarrow> True
      | Some parsed \<Rightarrow> parsed = [] \<or> ad4d_match_key render parsed \<noteq> Inr full_key)"

definition p10t_not_for :: "(string \<Rightarrow> pydict \<Rightarrow> string) \<Rightarrow> string \<Rightarrow> string \<Rightarrow> bool" where
  "p10t_not_for render full_key line =
     (case p10t_parse_report_line line of
        None \<Rightarrow> True
      | Some parsed \<Rightarrow> parsed = [] \<or> p10t_match_key render parsed \<noteq> Inr full_key)"

text \<open>
  The key token of a line the point-to-point parser accepts: the third token after a
  channel token \<^verbatim>\<open>1\<close> or \<^verbatim>\<open>2\<close>, the second token otherwise.
\<close>

definition p10t_key_token :: "string \<Rightarrow> string option" where
  "p10t_key_token line =
     (let parts = py_split (py_strip_chars ''<> '' line) in
      if length parts < 3 \<or> parts ! 0 \<noteq> ''REPORT'' then None
      else if parts ! 1 = ''1'' \<or> parts ! 1 = ''2'' then Some (parts ! 2)
      else Some (parts ! 1))"

text \<open>
  Two notions about patterns, for the facts on what a group captures: an item that closes
  group \<open>n\<close>, and an item without an optional group inside.
\<close>

fun closes :: "nat \<Rightarrow> rx \<Rightarrow> bool" where
  "closes n (Close m) = (m = n)"
| "closes n (OptSeq body) = (\<exists>x\<in>set body. closes n x)"
| "closes n (Atom c q) = False"
| "closes n (Open m) = False"
| "closes n Eos = False"

fun flat :: "rx \<Rightarrow> bool" where
  "flat (OptSeq body) = False"
| "flat (Atom c q) = True"
| "flat (Open m) = True"
| "flat (Close m) = True"
| "flat Eos = True"

text \<open>A result that is a string or \<^verbatim>\<open>None\<close>.\<close>

fun str_or_none :: "pyval \<Rightarrow> bool" where
  "str_or_none PNone = True"
| "str_or_none (PStr s) = True"
| "str_or_none (PInt i) = False"
| "str_or_none (PDict d) = False"

text \<open>The part of \<^verbatim>\<open>REP_RE\<close> that reads the value: \<^verbatim>\<open>\{?([^>}]+?)\}?\s*>?$\<close>.\<close>

definition valpat :: "rx list" where
  "valpat = [Atom (CChar CHR ''{'') Opt, Open 3, Atom (CNoneOf ''>}'') LazyPlus, Close 3,
                 Atom (CChar CHR ''}'') Opt, Atom CSpace Star, Atom (CChar CHR ''>'') Opt, Eos]"

section \<open>Evaluation\<close>

lemmas str_eval =
  is_space_def py_strip_def py_strip_chars_def py_split_def startswith_def py_int_def
  digit_val_def py_dict_def lits_def re_match_def

lemmas mon_eval =
  passive_line_def call_handle_response_def call_handle_sample_def groups_def
  report_re_def sample_re_def reply_channel_re_def reply_device_re_def handle_response_def
  handle_sample_def SAMPLE_KEYS_def process_raw_data_def py_split_sep_def truthy_def
  py_upper_def upper_char_def upt_rec

section \<open>Facts about the matcher\<close>

lemma rmatch_star_greedy:
  assumes "\<forall>x\<in>set xs. cmatch c x" and "rest = [] \<or> \<not> cmatch c (hd rest)"
    and "rmatch k rest st = Some r"
  shows "rmatch (Atom c Star # k) (xs @ rest) st = Some r"
  using assms
proof (induction xs)
  case Nil
  then show ?case by (cases rest) auto
next
  case (Cons x xs)
  then show ?case by simp
qed

lemma rmatch_plus_greedy:
  assumes "xs \<noteq> []" and "\<forall>x\<in>set xs. cmatch c x" and "rest = [] \<or> \<not> cmatch c (hd rest)"
    and "rmatch k rest st = Some r"
  shows "rmatch (Atom c Plus # k) (xs @ rest) st = Some r"
proof (cases xs)
  case Nil
  with assms show ?thesis by simp
next
  case (Cons x xs')
  with assms rmatch_star_greedy[of xs' c rest k st r] show ?thesis by simp
qed

lemma rmatch_lazy_plus:
  assumes "xs \<noteq> []" and "\<forall>x\<in>set xs. cmatch c x"
    and "rmatch k rest st = Some r"
    and "\<forall>ys zs. xs = ys @ zs \<longrightarrow> ys \<noteq> [] \<longrightarrow> zs \<noteq> [] \<longrightarrow> rmatch k (zs @ rest) st = None"
  shows "rmatch (Atom c LazyPlus # k) (xs @ rest) st = Some r"
  using assms
proof (induction xs rule: list_nonempty_induct)
  case (single x)
  then show ?case by simp
next
  case (cons x xs)
  have fail: "rmatch k (xs @ rest) st = None"
    using cons.prems(3)[rule_format, of "[x]" xs] cons.hyps(1) by simp
  have later: "\<forall>ys zs. xs = ys @ zs \<longrightarrow> ys \<noteq> [] \<longrightarrow> zs \<noteq> [] \<longrightarrow> rmatch k (zs @ rest) st = None"
  proof (intro allI impI)
    fix ys zs assume "xs = ys @ zs" "ys \<noteq> []" "zs \<noteq> []"
    then show "rmatch k (zs @ rest) st = None"
      using cons.prems(3)[rule_format, of "x # ys" zs] by simp
  qed
  have "rmatch (Atom c LazyPlus # k) (xs @ rest) st = Some r"
    using cons.IH cons.prems(1,2) later by simp
  with fail cons.prems(1) cons.hyps(1) show ?case
    by (cases xs) auto
qed

lemma rep_tail_fails:
  assumes "CHR ''>'' \<notin> set w"
    and "rmatch [Atom CSpace Star, Atom (CChar CHR ''>'') Opt, Eos] (z # zs) st = None"
  shows "rmatch [Atom CSpace Star, Atom (CChar CHR ''>'') Opt, Eos] (w @ z # zs) st = None"
  using assms
proof (induction w)
  case Nil
  then show ?case by simp
next
  case (Cons x w)
  then show ?case by (auto simp: is_space_def)
qed

lemma py_strip_id:
  assumes "s \<noteq> []" "\<not> is_space (hd s)" "\<not> is_space (last s)"
  shows "py_strip s = s"
proof -
  have a: "dropWhile is_space s = s" using assms by (cases s) auto
  have b: "dropWhile is_space (rev s) = rev s"
    using assms by (cases "rev s") (auto simp: last_rev hd_rev)
  show ?thesis by (simp add: py_strip_def a b)
qed

lemma rep_value_braced:
  assumes "v \<noteq> []" "CHR ''}'' \<notin> set v" "CHR ''>'' \<notin> set v"
  shows "rmatch [Atom (CChar CHR ''{'') Opt, Open 3, Atom (CNoneOf ''>}'') LazyPlus, Close 3,
                 Atom (CChar CHR ''}'') Opt, Atom CSpace Star, Atom (CChar CHR ''>'') Opt, Eos]
           (CHR ''{'' # v @ ''} >'') st
         = Some (st\<lparr>marks := (marks st)(3 \<mapsto> v @ ''} >''), caps := (caps st)(3 \<mapsto> v)\<rparr>)"
proof -
  let ?st = "st\<lparr>marks := (marks st)(3 \<mapsto> v @ ''} >'')\<rparr>"
  let ?k = "[Close 3, Atom (CChar CHR ''}'') Opt, Atom CSpace Star, Atom (CChar CHR ''>'') Opt, Eos]"
  have ok: "rmatch ?k ''} >'' ?st = Some (st\<lparr>marks := (marks st)(3 \<mapsto> v @ ''} >''), caps := (caps st)(3 \<mapsto> v)\<rparr>)"
    by (simp add: is_space_def)
  have bad: "\<forall>ys zs. v = ys @ zs \<longrightarrow> ys \<noteq> [] \<longrightarrow> zs \<noteq> [] \<longrightarrow> rmatch ?k (zs @ ''} >'') ?st = None"
  proof (intro allI impI)
    fix ys zs assume v: "v = ys @ zs" and "ys \<noteq> []" and z: "zs \<noteq> []"
    then obtain c w where zs: "zs = c # w" by (cases zs) auto
    from v zs assms have c: "c \<noteq> CHR ''}''" and w: "CHR ''>'' \<notin> set zs" by auto
    have "rmatch [Atom CSpace Star, Atom (CChar CHR ''>'') Opt, Eos] (zs @ CHR ''}'' # '' >'') st' = None" for st'
      by (rule rep_tail_fails[OF w]) (simp add: is_space_def)
    then show "rmatch ?k (zs @ ''} >'') ?st = None"
      using c zs by simp
  qed
  have "rmatch (Atom (CNoneOf ''>}'') LazyPlus # ?k) (v @ ''} >'') ?st
          = Some (st\<lparr>marks := (marks st)(3 \<mapsto> v @ ''} >''), caps := (caps st)(3 \<mapsto> v)\<rparr>)"
    by (rule rmatch_lazy_plus[OF assms(1) _ ok bad]) (use assms in auto)
  then show ?thesis by simp
qed

lemma rep_value_plain:
  assumes "v \<noteq> []" "\<forall>c\<in>set v. c \<notin> set ''{}>'' \<and> \<not> is_space c"
  shows "rmatch [Atom (CChar CHR ''{'') Opt, Open 3, Atom (CNoneOf ''>}'') LazyPlus, Close 3,
                 Atom (CChar CHR ''}'') Opt, Atom CSpace Star, Atom (CChar CHR ''>'') Opt, Eos]
           (v @ '' >'') st
         = Some (st\<lparr>marks := (marks st)(3 \<mapsto> v @ '' >''), caps := (caps st)(3 \<mapsto> v)\<rparr>)"
proof -
  let ?st = "st\<lparr>marks := (marks st)(3 \<mapsto> v @ '' >'')\<rparr>"
  let ?k = "[Close 3, Atom (CChar CHR ''}'') Opt, Atom CSpace Star, Atom (CChar CHR ''>'') Opt, Eos]"
  have ok: "rmatch ?k '' >'' ?st = Some (st\<lparr>marks := (marks st)(3 \<mapsto> v @ '' >''), caps := (caps st)(3 \<mapsto> v)\<rparr>)"
    by (simp add: is_space_def)
  have bad: "\<forall>ys zs. v = ys @ zs \<longrightarrow> ys \<noteq> [] \<longrightarrow> zs \<noteq> [] \<longrightarrow> rmatch ?k (zs @ '' >'') ?st = None"
  proof (intro allI impI)
    fix ys zs assume v: "v = ys @ zs" and "ys \<noteq> []" and z: "zs \<noteq> []"
    then obtain c w where zs: "zs = c # w" by (cases zs) auto
    from z obtain u l where ul: "zs = u @ [l]" by (cases zs rule: rev_cases) auto
    from v zs assms have c: "c \<noteq> CHR ''}''" by auto
    from v ul assms have u: "CHR ''>'' \<notin> set u" and l: "l \<noteq> CHR ''>''" "\<not> is_space l" by auto
    have "rmatch [Atom CSpace Star, Atom (CChar CHR ''>'') Opt, Eos] (u @ l # '' >'') st' = None" for st'
      by (rule rep_tail_fails[OF u]) (use l in simp)
    then have "rmatch [Atom CSpace Star, Atom (CChar CHR ''>'') Opt, Eos] (zs @ '' >'') st' = None" for st'
      using ul by simp
    then show "rmatch ?k (zs @ '' >'') ?st = None"
      using c zs by simp
  qed
  have "rmatch (Atom (CNoneOf ''>}'') LazyPlus # ?k) (v @ '' >'') ?st
          = Some (st\<lparr>marks := (marks st)(3 \<mapsto> v @ '' >''), caps := (caps st)(3 \<mapsto> v)\<rparr>)"
    by (rule rmatch_lazy_plus[OF assms(1) _ ok bad]) (use assms in auto)
  moreover from assms have "hd v \<noteq> CHR ''{''" by (cases v) auto
  ultimately show ?thesis using assms(1) by (cases v) auto
qed

lemma keychar_not_space: "cmatch CKeyChar c \<Longrightarrow> \<not> is_space c"
  apply simp
  apply (elim disjE)
  apply (simp_all add: is_space_def)
  done

lemma key_strip:
  assumes "key \<noteq> []" "\<forall>c\<in>set key. cmatch CKeyChar c"
  shows "py_strip key = key"
proof (rule py_strip_id[OF assms(1)])
  from assms have "cmatch CKeyChar (hd key)" "cmatch CKeyChar (last key)"
    by (simp_all del: cmatch.simps)
  then show "\<not> is_space (hd key)" "\<not> is_space (last key)"
    using keychar_not_space by blast+
qed

lemma key_not_channel:
  assumes "key \<noteq> []" "\<forall>c\<in>set key. cmatch CKeyChar c"
  shows "key \<noteq> ''channel''"
proof
  assume "key = ''channel''"
  with assms(2) have "cmatch CKeyChar CHR ''c''" by simp
  then show False by simp
qed

lemma rep_key_value:
  assumes key: "key \<noteq> []" "\<forall>c\<in>set key. cmatch CKeyChar c"
    and hd: "valtext \<noteq> []" "\<not> is_space (hd valtext)"
    and val: "rmatch valpat valtext
               (st\<lparr>marks := (marks st)(2 \<mapsto> key @ CHR '' '' # valtext), caps := (caps st)(2 \<mapsto> key)\<rparr>) = Some r"
  shows "rmatch (Open 2 # Atom CKeyChar Plus # Close 2 # Atom CSpace Plus # valpat)
           (key @ CHR '' '' # valtext) st = Some r"
proof -
  let ?st = "st\<lparr>marks := (marks st)(2 \<mapsto> key @ CHR '' '' # valtext)\<rparr>"
  have sp: "rmatch (Close 2 # Atom CSpace Plus # valpat) (CHR '' '' # valtext) ?st = Some r"
    using hd val by (cases valtext) (auto simp: is_space_def)
  have "rmatch (Atom CKeyChar Plus # Close 2 # Atom CSpace Plus # valpat)
          (key @ CHR '' '' # valtext) ?st = Some r"
    by (rule rmatch_plus_greedy[OF key(1) key(2) _ sp]) simp
  then show ?thesis by simp
qed

lemma rep_prefix_gen:
  assumes "\<not> is_space c"
  shows "rmatch ([Atom (CChar CHR ''<'') One, Atom CSpace Star] @ lits ''REP'' @ Atom CSpace Plus # K)
           (''< REP '' @ c # s) st = rmatch K (c # s) st"
  using assms unfolding lits_def
  by (simp add: is_space_def split: option.splits)

lemma rep_prefix:
  assumes "\<not> is_space c"
  shows "rmatch REP_RE (''< REP '' @ c # s) st =
         rmatch (OptSeq [Open 1, Atom CDigit One, Close 1, Atom CSpace Plus] #
                 Open 2 # Atom CKeyChar Plus # Close 2 # Atom CSpace Plus # valpat) (c # s) st"
  using rep_prefix_gen[OF assms] unfolding REP_RE_def valpat_def
  by (simp del: rmatch.simps)

lemma rep_re_device:
  assumes key: "key \<noteq> []" "\<forall>c\<in>set key. cmatch CKeyChar c" "\<not> cmatch CDigit (hd key)"
    and hd: "valtext \<noteq> []" "\<not> is_space (hd valtext)"
    and val: "\<And>st. \<exists>r. rmatch valpat valtext st = Some r \<and> caps r = (caps st)(3 \<mapsto> v)"
  shows "\<exists>g. re_match REP_RE (''< REP '' @ key @ CHR '' '' # valtext) = Some g \<and> g 1 = None \<and> g 2 = Some key \<and> g 3 = Some v"
proof -
  obtain c key' where k: "key = c # key'" using key(1) by (cases key) auto
  let ?s = "key @ CHR '' '' # valtext"
  let ?rest = "Open 2 # Atom CKeyChar Plus # Close 2 # Atom CSpace Plus # valpat"
  have chan: "rmatch ([Open 1, Atom CDigit One, Close 1, Atom CSpace Plus] @ ?rest) ?s st = None" for st
    using key(3) k by simp
  have main: "\<exists>r. rmatch ?rest ?s st = Some r \<and> caps r = (caps st)(2 \<mapsto> key, 3 \<mapsto> v)" for st
  proof -
    from val obtain r where
      r: "rmatch valpat valtext
            (st\<lparr>marks := (marks st)(2 \<mapsto> ?s), caps := (caps st)(2 \<mapsto> key)\<rparr>) = Some r"
         "caps r = (caps (st\<lparr>marks := (marks st)(2 \<mapsto> ?s), caps := (caps st)(2 \<mapsto> key)\<rparr>))(3 \<mapsto> v)"
      by blast
    from rep_key_value[OF key(1,2) hd r(1)] r(2) show ?thesis by simp
  qed
  have "cmatch CKeyChar c" using key(2) k by (simp del: cmatch.simps)
  then have nsp: "\<not> is_space c" by (rule keychar_not_space)
  have "rmatch REP_RE (''< REP '' @ ?s) st = rmatch ?rest ?s st" for st
    using rep_prefix[OF nsp, of "key' @ CHR '' '' # valtext" st] chan[of st]
    by (simp del: rmatch.simps add: rmatch.simps(9) k)
  with main[of "\<lparr>marks = Map.empty, caps = Map.empty\<rparr>"] show ?thesis
    by (auto simp del: rmatch.simps simp add: re_match_def)
qed

lemma digit_not_space: "cmatch CDigit c \<Longrightarrow> \<not> is_space c"
  apply simp
  apply (elim disjE)
  apply (simp_all add: is_space_def)
  done

lemma rep_re_channel:
  assumes key: "key \<noteq> []" "\<forall>c\<in>set key. cmatch CKeyChar c" and d: "cmatch CDigit d"
    and hd: "valtext \<noteq> []" "\<not> is_space (hd valtext)"
    and val: "\<And>st. \<exists>r. rmatch valpat valtext st = Some r \<and> caps r = (caps st)(3 \<mapsto> v)"
  shows "\<exists>g. re_match REP_RE (''< REP '' @ d # CHR '' '' # key @ CHR '' '' # valtext) = Some g
           \<and> g 1 = Some [d] \<and> g 2 = Some key \<and> g 3 = Some v"
proof -
  obtain c key' where k: "key = c # key'" using key(1) by (cases key) auto
  let ?s = "key @ CHR '' '' # valtext"
  let ?rest = "Open 2 # Atom CKeyChar Plus # Close 2 # Atom CSpace Plus # valpat"
  have main: "\<exists>r. rmatch ?rest ?s st = Some r \<and> caps r = (caps st)(2 \<mapsto> key, 3 \<mapsto> v)" for st
  proof -
    from val obtain r where
      r: "rmatch valpat valtext
            (st\<lparr>marks := (marks st)(2 \<mapsto> ?s), caps := (caps st)(2 \<mapsto> key)\<rparr>) = Some r"
         "caps r = (caps (st\<lparr>marks := (marks st)(2 \<mapsto> ?s), caps := (caps st)(2 \<mapsto> key)\<rparr>))(3 \<mapsto> v)"
      by blast
    from rep_key_value[OF key(1,2) hd r(1)] r(2) show ?thesis by simp
  qed
  have "cmatch CKeyChar c" using key(2) k by (simp del: cmatch.simps)
  then have nsp: "\<not> is_space c" by (rule keychar_not_space)
  have sp: "rmatch (Atom CSpace Plus # ?rest) (CHR '' '' # ?s) st = rmatch ?rest ?s st" for st
    using nsp by (simp del: rmatch.simps add: rmatch.simps(4,5) k is_space_def)
  have chan: "rmatch ([Open 1, Atom CDigit One, Close 1, Atom CSpace Plus] @ ?rest) (d # CHR '' '' # ?s) st
      = rmatch ?rest ?s (st\<lparr>marks := (marks st)(1 \<mapsto> d # CHR '' '' # ?s), caps := (caps st)(1 \<mapsto> [d])\<rparr>)" for st
    using d sp by (simp del: rmatch.simps cmatch.simps add: rmatch.simps(2,7,8))
  have "rmatch REP_RE (''< REP '' @ d # CHR '' '' # ?s) st
      = rmatch ?rest ?s (st\<lparr>marks := (marks st)(1 \<mapsto> d # CHR '' '' # ?s), caps := (caps st)(1 \<mapsto> [d])\<rparr>)" for st
  proof -
    obtain r where "rmatch ?rest ?s (st\<lparr>marks := (marks st)(1 \<mapsto> d # CHR '' '' # ?s), caps := (caps st)(1 \<mapsto> [d])\<rparr>) = Some r"
      using main by blast
    then show ?thesis
      using rep_prefix[OF digit_not_space[OF d], of "CHR '' '' # ?s" st] chan[of st]
      by (simp del: rmatch.simps add: rmatch.simps(9))
  qed
  with main[of "\<lparr>marks = [1 \<mapsto> d # CHR '' '' # ?s], caps = [1 \<mapsto> [d]]\<rparr>"] show ?thesis
    by (auto simp del: rmatch.simps simp add: re_match_def)
qed

lemma frame_strip: "py_strip (''< REP '' @ body @ '' >'') = ''< REP '' @ body @ '' >''"
  by (rule py_strip_id) (simp_all add: is_space_def)

lemma ad4d_parse_frame:
  assumes key: "key \<noteq> []" "\<forall>c\<in>set key. cmatch CKeyChar c"
    and scope: "case scope of None \<Rightarrow> \<not> cmatch CDigit (hd key) | Some d \<Rightarrow> cmatch CDigit d"
    and hd: "valtext \<noteq> []" "\<not> is_space (hd valtext)"
    and val: "\<And>st. \<exists>r. rmatch valpat (valtext @ '' >'') st = Some r \<and> caps r = (caps st)(3 \<mapsto> v)"
  shows "ad4d_parse_report_line (rep_frame scope key valtext)
         = Some [(PStr ''channel'', scope_val scope), (PStr key, PStr (py_strip v))]"
proof -
  have hd': "valtext @ '' >'' \<noteq> []" "\<not> is_space (hd (valtext @ '' >''))" using hd by auto
  have nc: "key \<noteq> ''channel''" by (rule key_not_channel[OF key])
  have ks: "py_strip key = key" by (rule key_strip[OF key])
  show ?thesis
  proof (cases scope)
    case None
    with scope have nd: "\<not> cmatch CDigit (hd key)" by simp
    from rep_re_device[OF key nd hd' val] obtain g where
      g: "re_match REP_RE (''< REP '' @ key @ CHR '' '' # valtext @ '' >'') = Some g" "g 1 = None" "g 2 = Some key" "g 3 = Some v"
      by blast
    have "py_strip (rep_frame scope key valtext) = ''< REP '' @ key @ CHR '' '' # valtext @ '' >''"
      using frame_strip[of "key @ CHR '' '' # valtext"] None by (simp add: rep_frame_def)
    then show ?thesis
      using g nc ks None by (simp add: ad4d_parse_report_line_def py_dict_def scope_val_def)
  next
    case (Some d)
    with scope have dd: "cmatch CDigit d" by simp
    from rep_re_channel[OF key dd hd' val] obtain g where
      g: "re_match REP_RE (''< REP '' @ d # CHR '' '' # key @ CHR '' '' # valtext @ '' >'') = Some g" "g 1 = Some [d]" "g 2 = Some key" "g 3 = Some v"
      by blast
    have "py_strip (rep_frame scope key valtext) = ''< REP '' @ d # CHR '' '' # key @ CHR '' '' # valtext @ '' >''"
      using frame_strip[of "d # CHR '' '' # key @ CHR '' '' # valtext"] Some by (simp add: rep_frame_def)
    then show ?thesis
      using g nc ks Some by (simp add: ad4d_parse_report_line_def py_dict_def scope_val_def py_int_def)
  qed
qed

text \<open>
  What group 2 of \<^verbatim>\<open>REP_RE\<close> captures: a group that is closed once keeps its text to the
  end of the match, and the key group holds one or more key characters.
\<close>

lemma caps_kept:
  "rmatch p s st = Some r \<Longrightarrow> \<forall>x\<in>set p. \<not> closes n x \<Longrightarrow> caps r n = caps st n"
proof (induction p s st rule: rmatch.induct)
  case (1 s st)
  then show ?case by simp
next
  case (2 c k s st)
  from "2.prems"(2) have nk: "\<forall>x\<in>set k. \<not> closes n x" by simp
  show ?case
  proof (cases s)
    case Nil
    with "2.prems"(1) show ?thesis by simp
  next
    case (Cons x xs)
    with "2.prems"(1) have "cmatch c x" and "rmatch k xs st = Some r"
      by (auto split: if_splits)
    with "2.IH"[OF Cons] nk show ?thesis by simp
  qed
next
  case (3 c k s st)
  from "3.prems"(2) have nk: "\<forall>x\<in>set k. \<not> closes n x" by simp
  show ?case
  proof (cases s)
    case Nil
    with "3.prems"(1) "3.IH"(1) nk show ?thesis by simp
  next
    case (Cons x xs)
    show ?thesis
    proof (cases "cmatch c x")
      case True
      show ?thesis
      proof (cases "rmatch k xs st")
        case None
        with "3.prems"(1) Cons True have "rmatch k (x # xs) st = Some r" by simp
        with "3.IH"(3)[OF Cons True None] nk show ?thesis by simp
      next
        case (Some r')
        with "3.prems"(1) Cons True have "rmatch k xs st = Some r" by simp
        with "3.IH"(2)[OF Cons True] nk show ?thesis by simp
      qed
    next
      case False
      with "3.prems"(1) Cons have "rmatch k (x # xs) st = Some r" by simp
      with "3.IH"(4)[OF Cons False] nk show ?thesis by simp
    qed
  qed
next
  case (4 c k s st)
  from "4.prems"(2) have nk: "\<forall>x\<in>set k. \<not> closes n x" by simp
  show ?case
  proof (cases s)
    case Nil
    with "4.prems"(1) "4.IH"(1) nk show ?thesis by simp
  next
    case (Cons x xs)
    show ?thesis
    proof (cases "cmatch c x")
      case True
      show ?thesis
      proof (cases "rmatch (Atom c Star # k) xs st")
        case None
        with "4.prems"(1) Cons True have "rmatch k (x # xs) st = Some r" by simp
        with "4.IH"(3)[OF Cons True None] nk show ?thesis by simp
      next
        case (Some r')
        with "4.prems"(1) Cons True have "rmatch (Atom c Star # k) xs st = Some r" by simp
        with "4.IH"(2)[OF Cons True] "4.prems"(2) show ?thesis by simp
      qed
    next
      case False
      with "4.prems"(1) Cons have "rmatch k (x # xs) st = Some r" by simp
      with "4.IH"(4)[OF Cons False] nk show ?thesis by simp
    qed
  qed
next
  case (5 c k s st)
  show ?case
  proof (cases s)
    case Nil
    with "5.prems"(1) show ?thesis by simp
  next
    case (Cons x xs)
    with "5.prems"(1) have "cmatch c x" and "rmatch (Atom c Star # k) xs st = Some r"
      by (auto split: if_splits)
    with "5.IH"[OF Cons] "5.prems"(2) show ?thesis by simp
  qed
next
  case (6 c k s st)
  from "6.prems"(2) have nk: "\<forall>x\<in>set k. \<not> closes n x" by simp
  show ?case
  proof (cases s)
    case Nil
    with "6.prems"(1) show ?thesis by simp
  next
    case (Cons x xs)
    with "6.prems"(1) have t: "cmatch c x" by (auto split: if_splits)
    show ?thesis
    proof (cases "rmatch k xs st")
      case None
      with "6.prems"(1) Cons t have "rmatch (Atom c LazyPlus # k) xs st = Some r" by simp
      with "6.IH"(2)[OF Cons t None] "6.prems"(2) show ?thesis by simp
    next
      case (Some r')
      with "6.prems"(1) Cons t have "rmatch k xs st = Some r" by simp
      with "6.IH"(1)[OF Cons t] nk show ?thesis by simp
    qed
  qed
next
  case (7 m k s st)
  then show ?case by simp
next
  case (8 m k s st)
  then show ?case by simp
next
  case (9 body k s st)
  from "9.prems"(2) have nk: "\<forall>x\<in>set k. \<not> closes n x"
    and nb: "\<forall>x\<in>set (body @ k). \<not> closes n x" by auto
  show ?case
  proof (cases "rmatch (body @ k) s st")
    case None
    with "9.prems"(1) have "rmatch k s st = Some r" by simp
    with "9.IH"(2)[OF None] nk show ?thesis by simp
  next
    case (Some r')
    with "9.prems"(1) have "rmatch (body @ k) s st = Some r" by simp
    with "9.IH"(1) nb show ?thesis by simp
  qed
next
  case (10 k s st)
  then show ?case by (auto split: if_splits)
qed

lemma close_cap:
  assumes "rmatch (Close n # K) s st = Some r" and "marks st n = Some (pre @ s)"
    and "\<forall>x\<in>set K. \<not> closes n x"
  shows "caps r n = Some pre"
proof -
  let ?st = "st\<lparr>caps := (caps st)(n := map_option (\<lambda>b. take (length b - length s) b) (marks st n))\<rparr>"
  from assms(1) have "rmatch K s ?st = Some r" by simp
  from caps_kept[OF this assms(3)] assms(2) show ?thesis by simp
qed

lemma star_cap:
  assumes "rmatch (Atom c Star # Close n # K) s st = Some r"
    and "marks st n = Some (pre @ s)" and "\<forall>x\<in>set pre. cmatch c x"
    and "\<forall>x\<in>set K. \<not> closes n x"
  shows "\<exists>k. caps r n = Some k \<and> (\<forall>x\<in>set k. cmatch c x) \<and> length pre \<le> length k"
  using assms
proof (induction s arbitrary: pre)
  case Nil
  then have "rmatch (Close n # K) [] st = Some r" by simp
  from close_cap[OF this] Nil.prems show ?case by auto
next
  case (Cons x xs)
  show ?case
  proof (cases "cmatch c x \<and> rmatch (Atom c Star # Close n # K) xs st \<noteq> None")
    case True
    with Cons.prems(1) have m: "rmatch (Atom c Star # Close n # K) xs st = Some r" by auto
    have "marks st n = Some ((pre @ [x]) @ xs)" using Cons.prems(2) by simp
    moreover have "\<forall>y\<in>set (pre @ [x]). cmatch c y" using Cons.prems(3) True by simp
    ultimately obtain k where "caps r n = Some k" "\<forall>x\<in>set k. cmatch c x"
        "length (pre @ [x]) \<le> length k"
      using Cons.IH[OF m _ _ Cons.prems(4)] by blast
    then show ?thesis by auto
  next
    case False
    with Cons.prems(1) have "rmatch (Close n # K) (x # xs) st = Some r"
      by (auto split: if_splits option.splits)
    from close_cap[OF this Cons.prems(2) Cons.prems(4)] Cons.prems(3) show ?thesis by auto
  qed
qed

lemma group_plus_cap:
  assumes "rmatch (Open n # Atom c Plus # Close n # K) s st = Some r"
    and "\<forall>x\<in>set K. \<not> closes n x"
  shows "\<exists>k. caps r n = Some k \<and> k \<noteq> [] \<and> (\<forall>x\<in>set k. cmatch c x)"
proof -
  let ?st = "st\<lparr>marks := (marks st)(n \<mapsto> s)\<rparr>"
  from assms(1) have p: "rmatch (Atom c Plus # Close n # K) s ?st = Some r" by simp
  then obtain x xs where s: "s = x # xs" by (cases s) auto
  with p have x: "cmatch c x" and m: "rmatch (Atom c Star # Close n # K) xs ?st = Some r"
    by (auto split: if_splits)
  have "marks ?st n = Some ([x] @ xs)" using s by simp
  from star_cap[OF m this _ assms(2)] x obtain k where
    "caps r n = Some k" "\<forall>x\<in>set k. cmatch c x" "length [x] \<le> length k" by auto
  then show ?thesis by (cases k) auto
qed

lemma star_reach:
  "rmatch (Atom c Star # Q) s st = Some r \<Longrightarrow> \<exists>s'. rmatch Q s' st = Some r"
  by (induction s) (auto split: if_splits option.splits)

lemma lazy_reach:
  "rmatch (Atom c LazyPlus # Q) s st = Some r \<Longrightarrow> \<exists>s'. rmatch Q s' st = Some r"
  by (induction s) (auto split: if_splits option.splits)

lemma atom_reach:
  assumes "rmatch (Atom c q # Q) s st = Some r"
  shows "\<exists>s'. rmatch Q s' st = Some r"
proof (cases q)
  case One
  with assms show ?thesis by (cases s) (auto split: if_splits)
next
  case Opt
  with assms show ?thesis by (cases s) (auto split: if_splits option.splits)
next
  case Star
  with assms have "rmatch (Atom c Star # Q) s st = Some r" by (simp del: rmatch.simps)
  then show ?thesis by (rule star_reach)
next
  case Plus
  with assms obtain xs where "rmatch (Atom c Star # Q) xs st = Some r"
    by (cases s) (auto split: if_splits)
  then show ?thesis by (rule star_reach)
next
  case LazyPlus
  with assms have "rmatch (Atom c LazyPlus # Q) s st = Some r" by (simp del: rmatch.simps)
  then show ?thesis by (rule lazy_reach)
qed

lemma flat_reach:
  "rmatch (p @ Q) s st = Some r \<Longrightarrow> \<forall>x\<in>set p. flat x \<Longrightarrow> \<exists>s' st'. rmatch Q s' st' = Some r"
proof (induction p arbitrary: s st)
  case Nil
  then show ?case by auto
next
  case (Cons a p)
  show ?case
  proof (cases a)
    case (Atom c q)
    with Cons.prems(1) obtain s' where "rmatch (p @ Q) s' st = Some r"
      using atom_reach[of c q "p @ Q" s st r] by auto
    with Cons.IH Cons.prems(2) show ?thesis by auto
  next
    case (Open m)
    with Cons.prems(1) Cons.IH Cons.prems(2) show ?thesis by auto
  next
    case (Close m)
    with Cons.prems(1) Cons.IH Cons.prems(2) show ?thesis by auto
  next
    case (OptSeq b)
    with Cons.prems(2) show ?thesis by simp
  next
    case Eos
    with Cons.prems(1) Cons.IH[of s st] Cons.prems(2) show ?thesis
      by (auto split: if_splits)
  qed
qed

lemma rep_re_key_group:
  assumes "rmatch REP_RE s st = Some r"
  shows "\<exists>k. caps r 2 = Some k \<and> k \<noteq> [] \<and> (\<forall>x\<in>set k. cmatch CKeyChar x)"
proof -
  let ?K = "Atom CSpace Plus # valpat"
  let ?Q = "Open 2 # Atom CKeyChar Plus # Close 2 # ?K"
  let ?B = "[Open 1, Atom CDigit One, Close 1, Atom CSpace Plus]"
  let ?P = "[Atom (CChar CHR ''<'') One, Atom CSpace Star] @ lits ''REP'' @ [Atom CSpace Plus]"
  have re: "REP_RE = ?P @ (OptSeq ?B # ?Q)"
    by (simp add: REP_RE_def valpat_def)
  have "\<forall>x\<in>set ?P. flat x" by (simp add: lits_def)
  from flat_reach[OF assms[unfolded re] this] obtain s1 st1 where
    "rmatch (OptSeq ?B # ?Q) s1 st1 = Some r" by blast
  then have "rmatch (?B @ ?Q) s1 st1 = Some r \<or> rmatch ?Q s1 st1 = Some r"
    by (simp del: rmatch.simps add: rmatch.simps(9) split: option.splits)
  moreover have "\<forall>x\<in>set ?B. flat x" by simp
  ultimately obtain s2 st2 where q: "rmatch ?Q s2 st2 = Some r"
    using flat_reach[of ?B ?Q s1 st1 r] by blast
  have "\<forall>x\<in>set ?K. \<not> closes 2 x" by (simp add: valpat_def)
  from group_plus_cap[OF q this] show ?thesis .
qed

section \<open>Decoding scenarios\<close>

text \<open>
  C9. For the multi-channel family, the line \<^verbatim>\<open>< REP 2 FREQUENCY 518.475 >\<close> decodes to
  channel 2, key FREQUENCY and value 518.475: the dictionary
  \<^verbatim>\<open>{"channel": 2, "FREQUENCY": "518.475"}\<close>.
\<close>

theorem ad4d_decodes_channel_frequency:
  "ad4d_parse_report_line ''< REP 2 FREQUENCY 518.475 >'' =
     Some [(PStr ''channel'', PInt 2), (PStr ''FREQUENCY'', PStr ''518.475'')]"
  by (simp add: ad4d_parse_report_line_def REP_RE_def str_eval)

lemma p10t_keeps_braces:
  "p10t_parse_report_line ''< REPORT DEVICE_NAME {Unit-A} >'' =
     Some [(PStr ''channel'', PNone), (PStr ''DEVICE_NAME'', PStr ''{Unit-A}'')]"
  by (simp add: p10t_parse_report_line_def str_eval)

text \<open>
  C3, as stated, fails: the point-to-point decoder does not give the value \<^verbatim>\<open>Unit-A\<close> for
  the line \<^verbatim>\<open>< REPORT DEVICE_NAME {Unit-A} >\<close>. Nor does the multi-channel decoder strip one
  brace pair from every brace-wrapped value, or pass every value without braces through:
  it rejects the values \<^verbatim>\<open>{{Unit-A}}\<close> and \<^verbatim>\<open>a>b\<close>, and gives \<^verbatim>\<open>{\<close> for the value \<^verbatim>\<open>{}\<close>.
\<close>

theorem p10t_braces_not_stripped:
  "p10t_parse_report_line ''< REPORT DEVICE_NAME {Unit-A} >'' \<noteq>
     Some [(PStr ''channel'', PNone), (PStr ''DEVICE_NAME'', PStr ''Unit-A'')]
   \<and> ad4d_parse_report_line ''< REP DEVICE_ID {{Unit-A}} >'' = None
   \<and> ad4d_parse_report_line ''< REP DEVICE_ID {} >'' =
       Some [(PStr ''channel'', PNone), (PStr ''DEVICE_ID'', PStr ''{'')]
   \<and> ad4d_parse_report_line ''< REP DEVICE_ID a>b >'' = None"
  by (simp add: p10t_parse_report_line_def ad4d_parse_report_line_def REP_RE_def str_eval)

text \<open>
  C3, amended. The point-to-point decoder returns the value token of
  \<^verbatim>\<open>< REPORT DEVICE_NAME {Unit-A} >\<close> with its braces: scope Device, key DEVICE_NAME, value
  \<^verbatim>\<open>{Unit-A}\<close>. For the multi-channel decoder, take a direct reply
  \<^verbatim>\<open>< REP [d] KEY value >\<close> whose key is a non-empty word of capitals, digits and
  underscores, not starting with a digit when there is no channel digit \<open>d\<close>, and a
  non-empty text \<open>v\<close>. When \<open>v\<close> has no \<^verbatim>\<open>}\<close> and no \<^verbatim>\<open>>\<close>, the reply with the value
  \<^verbatim>\<open>{v}\<close> decodes to the scope, the key and \<open>v\<close> with its leading and trailing white space
  removed: one brace pair is stripped. When \<open>v\<close> has no \<^verbatim>\<open>{\<close>, \<^verbatim>\<open>}\<close>, \<^verbatim>\<open>>\<close> or white space,
  the reply with the value \<open>v\<close> decodes to the scope, the key and \<open>v\<close> unchanged.
\<close>

theorem decode_brace_handling:
  assumes "key \<noteq> []" and "\<forall>c\<in>set key. cmatch CKeyChar c"
    and "case scope of None \<Rightarrow> \<not> cmatch CDigit (hd key) | Some d \<Rightarrow> cmatch CDigit d"
    and "v \<noteq> []"
  shows "p10t_parse_report_line ''< REPORT DEVICE_NAME {Unit-A} >'' =
           Some [(PStr ''channel'', PNone), (PStr ''DEVICE_NAME'', PStr ''{Unit-A}'')]
       \<and> (CHR ''}'' \<notin> set v \<and> CHR ''>'' \<notin> set v \<longrightarrow>
            ad4d_parse_report_line (rep_frame scope key (''{'' @ v @ ''}''))
              = Some [(PStr ''channel'', scope_val scope), (PStr key, PStr (py_strip v))])
       \<and> ((\<forall>c\<in>set v. c \<notin> set ''{}>'' \<and> \<not> is_space c) \<longrightarrow>
            ad4d_parse_report_line (rep_frame scope key v)
              = Some [(PStr ''channel'', scope_val scope), (PStr key, PStr v)])"
proof (intro conjI impI)
  show "p10t_parse_report_line ''< REPORT DEVICE_NAME {Unit-A} >'' =
           Some [(PStr ''channel'', PNone), (PStr ''DEVICE_NAME'', PStr ''{Unit-A}'')]"
    by (rule p10t_keeps_braces)
next
  assume b: "CHR ''}'' \<notin> set v \<and> CHR ''>'' \<notin> set v"
  have "\<exists>r. rmatch valpat ((''{'' @ v @ ''}'') @ '' >'') st = Some r \<and> caps r = (caps st)(3 \<mapsto> v)" for st
    using rep_value_braced[OF assms(4), of st] b by (simp add: valpat_def del: rmatch.simps)
  from ad4d_parse_frame[OF assms(1-3) _ _ this]
  show "ad4d_parse_report_line (rep_frame scope key (''{'' @ v @ ''}''))
              = Some [(PStr ''channel'', scope_val scope), (PStr key, PStr (py_strip v))]"
    by (simp add: is_space_def)
next
  assume p: "\<forall>c\<in>set v. c \<notin> set ''{}>'' \<and> \<not> is_space c"
  have val: "\<exists>r. rmatch valpat (v @ '' >'') st = Some r \<and> caps r = (caps st)(3 \<mapsto> v)" for st
    using rep_value_plain[OF assms(4) p, of st] by (simp add: valpat_def del: rmatch.simps)
  from assms(4) p have e: "\<not> is_space (hd v)" "\<not> is_space (last v)" by auto
  have "py_strip v = v" by (rule py_strip_id[OF assms(4) e])
  with ad4d_parse_frame[OF assms(1-3) assms(4) e(1) val]
  show "ad4d_parse_report_line (rep_frame scope key v)
              = Some [(PStr ''channel'', scope_val scope), (PStr key, PStr v)]"
    by simp
qed

text \<open>
  Witness for C3: the key DEVICE_ID with no channel and the value \<^verbatim>\<open>Unit-A\<close>, with and
  without braces.
\<close>

theorem decode_brace_handling_witness:
  "ad4d_parse_report_line ''< REP DEVICE_ID {Unit-A} >''
     = Some [(PStr ''channel'', PNone), (PStr ''DEVICE_ID'', PStr ''Unit-A'')]
   \<and> ad4d_parse_report_line ''< REP DEVICE_ID Unit-A >''
     = Some [(PStr ''channel'', PNone), (PStr ''DEVICE_ID'', PStr ''Unit-A'')]"
  using decode_brace_handling[of "''DEVICE_ID''" None "''Unit-A''"]
  by (simp add: rep_frame_def scope_val_def py_strip_def is_space_def)

section \<open>The monitor\<close>

text \<open>
  C1 does not hold on the code. \<^verbatim>\<open>report_re\<close> has three groups, so the call
  \<^verbatim>\<open>handle_response(host, redis_client, *match.groups(), device_type)\<close> passes six
  arguments to a function of four: every line that matches the report grammar raises
  TypeError, nothing reaches the sink, and the exception leaves the ingestion loop. Here
  for the line \<^verbatim>\<open>< REPORT DEVICE_NAME {Unit-A} >\<close>.
\<close>

theorem passive_report_line_raises:
  "passive_drain ''10.0.0.5'' ''p10t'' [] (''< REPORT DEVICE_NAME {Unit-A} >'' @ [CHR 0x0A]) =
     ([], Inl (TypeError ''handle_response() takes 4 positional arguments but 6 were given''))"
  by (simp add: mon_eval str_eval py_str_int_def str_nat.simps)

text \<open>The same for every line \<^verbatim>\<open>report_re\<close> matches, whatever the groups hold.\<close>

lemma report_call_raises:
  "call_handle_response host (groups 3 g) device_type =
     Inl (TypeError ''handle_response() takes 4 positional arguments but 6 were given'')"
  by (simp add: call_handle_response_def groups_def upt_rec py_str_int_def str_nat.simps
      split: option.splits)

text \<open>
  C5 does not hold on the code. \<^verbatim>\<open>process_raw_data\<close> returns at the first SAMPLE frame
  of a chunk: the reply \<^verbatim>\<open>< REP 1 FREQUENCY 518475 >\<close>, which alone is forwarded as
  (channel 1, FREQUENCY, 518475), is not forwarded when it follows a SAMPLE frame in the
  same chunk.
\<close>

theorem polling_chunk_stops_at_sample:
  "forwarded (fst (process_raw_data
       ''< SAMPLE 1 ALL 5 0 1 2 3 4 5 6 7 >< REP 1 FREQUENCY 518475 >'' ''10.0.0.5'' ''ad4d''))
     = forwarded (fst (process_raw_data ''< SAMPLE 1 ALL 5 0 1 2 3 4 5 6 7 >'' ''10.0.0.5'' ''ad4d''))
   \<and> forwarded (fst (process_raw_data ''< REP 1 FREQUENCY 518475 >'' ''10.0.0.5'' ''ad4d''))
        = [(''10.0.0.5:channel:1'', ''FREQUENCY'', ''518475'')]
   \<and> (''10.0.0.5:channel:1'', ''FREQUENCY'', ''518475'') \<notin>
        set (forwarded (fst (process_raw_data
          ''< SAMPLE 1 ALL 5 0 1 2 3 4 5 6 7 >< REP 1 FREQUENCY 518475 >'' ''10.0.0.5'' ''ad4d'')))"
  by (simp add: mon_eval str_eval)

section \<open>The command line\<close>

lemmas cli_eval =
  ad4d_main_def ad4d_build_command_def p10t_main_def p10t_build_command_def truthy_def
  py_upper_def upper_char_def ad4d_ALL_KEYS_def ad4d_DEVICE_GET_ONLY_KEYS_def
  ad4d_DEVICE_GET_SET_KEYS_def ad4d_CHANNEL_GET_SET_KEYS_def ad4d_CHANNEL_GET_ONLY_KEYS_def
  ad4d_brace_keys_def p10t_ALL_KEYS_def p10t_DEVICE_GET_ONLY_KEYS_def
  p10t_DEVICE_GET_SET_KEYS_def p10t_CHANNEL_GET_SET_KEYS_def

text \<open>
  The part of C2 that the code keeps: a \<^verbatim>\<open>SET\<close> of a device-level read-only key is
  refused by both clients before any call of \<^verbatim>\<open>send_command\<close>.
\<close>

lemma set_device_read_only_refused:
  assumes "\<not> arg_list args" and "truthy (arg_host args)" and "arg_set args"
    and "arg_key args = Some k"
  shows "py_upper k \<in> set ad4d_DEVICE_GET_ONLY_KEYS \<Longrightarrow>
           ad4d_main args = ExitError (''Error: '' @ py_upper k @ '' is read-only and cannot be set'')"
    and "py_upper k \<in> set p10t_DEVICE_GET_ONLY_KEYS \<Longrightarrow>
           p10t_main args = ExitError (''Error: '' @ py_upper k @ '' is read-only and cannot be set'')"
proof -
  assume a: "py_upper k \<in> set ad4d_DEVICE_GET_ONLY_KEYS"
  then have "k \<noteq> []" by (auto simp: ad4d_DEVICE_GET_ONLY_KEYS_def py_upper_def)
  with a assms show "ad4d_main args
      = ExitError (''Error: '' @ py_upper k @ '' is read-only and cannot be set'')"
    by (simp add: ad4d_main_def ad4d_build_command_def truthy_def ad4d_ALL_KEYS_def)
next
  assume a: "py_upper k \<in> set p10t_DEVICE_GET_ONLY_KEYS"
  then have "k \<noteq> []" by (auto simp: p10t_DEVICE_GET_ONLY_KEYS_def py_upper_def)
  with a assms show "p10t_main args
      = ExitError (''Error: '' @ py_upper k @ '' is read-only and cannot be set'')"
    by (simp add: p10t_main_def p10t_build_command_def truthy_def p10t_ALL_KEYS_def)
qed

text \<open>
  C2 does not hold on the code. \<^verbatim>\<open>main\<close> of ad4d.py checks a \<^verbatim>\<open>SET\<close> against
  \<^verbatim>\<open>DEVICE_GET_ONLY_KEYS\<close> only; for the channel-level read-only key RSSI (listed as
  read-only by \<^verbatim>\<open>--list\<close>) it goes on to call \<^verbatim>\<open>send_command\<close>, which opens a socket and
  sends \<^verbatim>\<open>< SET 1 RSSI 5 >\<close>.
\<close>

theorem ad4d_set_channel_read_only_opens_socket:
  "''RSSI'' \<in> set ad4d_CHANNEL_GET_ONLY_KEYS
   \<and> ad4d_main \<lparr>arg_list = False, arg_host = Some ''10.0.0.5'', arg_get = False, arg_set = True,
        arg_channel = Some ''1'', arg_key = Some ''RSSI'', arg_value = Some ''5'',
        arg_output_format = ''text'', arg_json = False\<rparr>
       = SetCall \<lparr>call_command = Some ''SET 1 RSSI 5'', call_expect_key = None,
           call_output_format = ''text'', call_bulk = False\<rparr>
   \<and> opens_socket (ad4d_main \<lparr>arg_list = False, arg_host = Some ''10.0.0.5'', arg_get = False,
        arg_set = True, arg_channel = Some ''1'', arg_key = Some ''RSSI'', arg_value = Some ''5'',
        arg_output_format = ''text'', arg_json = False\<rparr>)"
  by (simp add: cli_eval)

section \<open>The sample frame\<close>

lemma forwarded_sample_loop:
  "forwarded (sample_loop host redis_key ch_num device_type kvs) = map (\<lambda>(k, v). (redis_key, k, v)) kvs"
  by (induction kvs) auto

text \<open>
  C7. \<^verbatim>\<open>handle_sample\<close> forwards one metric per field of the payload, for at most nine
  fields, in the fixed order CHANNEL_QUALITY, AUDIO_LED_BITMAP, AUDIO_LEVEL_PEAK,
  AUDIO_LEVEL_RMS, ANTENNA_STATUS, RSSI_LED_BITMAP_A, RSSI_A, RSSI_LED_BITMAP_B, RSSI_B:
  exactly nine for a payload of nine fields or more, and one per present field for a
  shorter one. The function has no failing step.
\<close>

theorem handle_sample_nine_in_order:
  "length (forwarded (handle_sample host ch_num raw device_type)) = min 9 (length (py_split raw))
   \<and> (\<forall>i < min 9 (length (py_split raw)).
         forwarded (handle_sample host ch_num raw device_type) ! i
           = (host @ '':channel:'' @ ch_num,
              [''CHANNEL_QUALITY'', ''AUDIO_LED_BITMAP'', ''AUDIO_LEVEL_PEAK'', ''AUDIO_LEVEL_RMS'',
               ''ANTENNA_STATUS'', ''RSSI_LED_BITMAP_A'', ''RSSI_A'', ''RSSI_LED_BITMAP_B'',
               ''RSSI_B''] ! i,
              py_split raw ! i))"
  by (simp add: handle_sample_def forwarded_sample_loop SAMPLE_KEYS_def min_def)

text \<open>Witness for C7: a payload of eleven fields and a payload of three.\<close>

theorem handle_sample_nine_in_order_witness:
  "length (forwarded (handle_sample ''10.0.0.5'' ''1'' ''5 0 1 2 3 4 5 6 7 8 9'' ''ad4d'')) = 9
   \<and> forwarded (handle_sample ''10.0.0.5'' ''1'' ''5 0 1 2 3 4 5 6 7 8 9'' ''ad4d'') ! 8
        = (''10.0.0.5:channel:1'', ''RSSI_B'', ''7'')
   \<and> length (forwarded (handle_sample ''10.0.0.5'' ''1'' ''5 0 1'' ''ad4d'')) = 3
   \<and> forwarded (handle_sample ''10.0.0.5'' ''1'' ''5 0 1'' ''ad4d'') ! 2
        = (''10.0.0.5:channel:1'', ''AUDIO_LEVEL_PEAK'', ''1'')"
  using handle_sample_nine_in_order[of "''10.0.0.5''" "''1''" "''5 0 1 2 3 4 5 6 7 8 9''" "''ad4d''"]
        handle_sample_nine_in_order[of "''10.0.0.5''" "''1''" "''5 0 1''" "''ad4d''"]
  by (simp add: py_split_def is_space_def)

section \<open>The bulk merge\<close>

lemma entry_of_simp:
  assumes "key \<noteq> ''channel''"
  shows "entry_of (ch, key, val) =
     [(PStr ''channel'', case ch of None \<Rightarrow> PNone | Some n \<Rightarrow> PInt n),
      (PStr key, case val of None \<Rightarrow> PNone | Some s \<Rightarrow> PStr s)]"
  using assms by (simp add: entry_of_def py_dict_def)

lemma merge_entry_step:
  assumes "key \<noteq> ''channel''" and "channels_are_dicts m"
  shows "\<exists>m'. merge_entry m (entry_of (ch, key, val)) = Inr m' \<and> channels_are_dicts m'
           \<and> snapshot m' = snap_step (ch, key, val) (snapshot m)
           \<and> (\<forall>c k. snapshot_get m' c k =
                 (if c = ch \<and> k = key then Some (case val of None \<Rightarrow> PNone | Some s \<Rightarrow> PStr s)
                  else snapshot_get m c k))"
proof (cases ch)
  case None
  let ?v = "case val of None \<Rightarrow> PNone | Some s \<Rightarrow> PStr s"
  have nd: "\<And>d. ?v \<noteq> PDict d" by (cases val) auto
  have m: "merge_entry m (entry_of (ch, key, val)) = Inr (AList.update (PStr key) ?v m)"
    using None assms(1) by (simp add: entry_of_simp merge_entry_def dict_update_def AList.delete_eq)
  have 1: "channels_are_dicts (AList.update (PStr key) ?v m)"
    using assms(2) by (simp add: channels_are_dicts_def update_conv')
  have 2: "snapshot (AList.update (PStr key) ?v m) = snap_step (ch, key, val) (snapshot m)"
    using None nd by (cases val) (auto simp: snapshot_def snap_step_def update_conv' fun_eq_iff)
  have 3: "snapshot_get (AList.update (PStr key) ?v m) c k =
                 (if c = ch \<and> k = key then Some ?v else snapshot_get m c k)" for c k
    using None by (cases c) (auto simp: snapshot_get_def update_conv')
  show ?thesis using m 1 2 3 by simp
next
  case (Some n)
  let ?v = "case val of None \<Rightarrow> PNone | Some s \<Rightarrow> PStr s"
  let ?m1 = "if map_of m (PInt n) = None then AList.update (PInt n) (PDict []) m else m"
  obtain d where d: "map_of ?m1 (PInt n) = Some (PDict d)"
      and dm: "map_of d = (case map_of m (PInt n) of Some (PDict sub) \<Rightarrow> map_of sub | _ \<Rightarrow> Map.empty)"
  proof (cases "map_of m (PInt n)")
    case None
    then show ?thesis using that[of "[]"] by (simp add: update_conv')
  next
    case (Some v)
    with assms(2) obtain d where "v = PDict d" by (auto simp: channels_are_dicts_def)
    with Some show ?thesis using that[of d] by simp
  qed
  let ?m2 = "AList.update (PInt n) (PDict (AList.update (PStr key) ?v d)) ?m1"
  have m: "merge_entry m (entry_of (ch, key, val)) = Inr ?m2"
    using Some assms(1) d
    by (simp add: entry_of_simp merge_entry_def dict_update_def AList.delete_eq Let_def)
  have 1: "channels_are_dicts ?m2"
    using assms(2) by (auto simp: channels_are_dicts_def update_conv')
  have 2: "snapshot ?m2 = snap_step (ch, key, val) (snapshot m)"
    using Some d dm
    by (auto simp: snapshot_def snap_step_def update_conv' fun_eq_iff split: option.splits pyval.splits)
  have 3: "snapshot_get ?m2 c k =
                 (if c = ch \<and> k = key then Some ?v else snapshot_get m c k)" for c k
    using Some d dm
    by (cases c) (auto simp: snapshot_get_def update_conv' split: option.splits pyval.splits)
  show ?thesis using m 1 2 3 by simp
qed

lemma merge_all_fold:
  assumes "\<forall>r\<in>set rs. fst (snd r) \<noteq> ''channel''" and "channels_are_dicts m"
  shows "\<exists>m'. merge_all m (map entry_of rs) = Inr m' \<and> channels_are_dicts m'
           \<and> snapshot m' = fold snap_step rs (snapshot m)
           \<and> (\<forall>c k. (\<forall>v. (c, k, v) \<notin> set rs) \<longrightarrow> snapshot_get m' c k = snapshot_get m c k)"
  using assms
proof (induction rs arbitrary: m)
  case Nil
  then show ?case by simp
next
  case (Cons r rs)
  obtain ch key val where r: "r = (ch, key, val)" by (cases r) auto
  with Cons.prems have k: "key \<noteq> ''channel''" by simp
  from merge_entry_step[OF k Cons.prems(2), of ch val] obtain m1 where
    m1: "merge_entry m (entry_of (ch, key, val)) = Inr m1" "channels_are_dicts m1"
        "snapshot m1 = snap_step (ch, key, val) (snapshot m)"
        "\<forall>c k. snapshot_get m1 c k =
            (if c = ch \<and> k = key then Some (case val of None \<Rightarrow> PNone | Some s \<Rightarrow> PStr s)
             else snapshot_get m c k)"
    by blast
  from Cons.prems have "\<forall>r\<in>set rs. fst (snd r) \<noteq> ''channel''" by simp
  from Cons.IH[OF this m1(2)] obtain m' where
    m': "merge_all m1 (map entry_of rs) = Inr m'" "channels_are_dicts m'"
        "snapshot m' = fold snap_step rs (snapshot m1)"
        "\<forall>c k. (\<forall>v. (c, k, v) \<notin> set rs) \<longrightarrow> snapshot_get m' c k = snapshot_get m1 c k"
    by blast
  have "\<forall>c k. (\<forall>v. (c, k, v) \<notin> set (r # rs)) \<longrightarrow> snapshot_get m' c k = snapshot_get m c k"
    using m'(4) m1(4) r by auto
  with m1 m' r show ?case by simp
qed

lemma snap_step_commute:
  assumes "fst f = fst g \<and> fst (snd f) = fst (snd g) \<longrightarrow> f = g"
  shows "snap_step f \<circ> snap_step g = snap_step g \<circ> snap_step f"
proof (cases "f = g")
  case True
  then show ?thesis by simp
next
  case False
  obtain c1 k1 v1 where f: "f = (c1, k1, v1)" by (cases f) auto
  obtain c2 k2 v2 where g: "g = (c2, k2, v2)" by (cases g) auto
  from False assms f g have ne: "c1 \<noteq> c2 \<or> k1 \<noteq> k2" by auto
  show ?thesis
  proof (rule ext)
    fix S
    show "(snap_step f \<circ> snap_step g) S = (snap_step g \<circ> snap_step f) S"
      using ne unfolding f g
      by (cases c1; cases c2) (auto simp: snap_step_def fun_upd_twist Let_def intro!: ext)
  qed
qed

text \<open>
  Every dictionary the multi-channel parser returns is the entry of a reply whose key is
  not the word \<^verbatim>\<open>channel\<close>; so is every dictionary the point-to-point parser returns,
  unless the key token of the line is that word. For such entries the scan computes an
  address.
\<close>

lemma ad4d_parsed_is_entry:
  assumes "ad4d_parse_report_line line = Some parsed"
  shows "\<exists>ch k v. parsed = entry_of (ch, k, Some v) \<and> k \<noteq> ''channel''"
proof -
  from assms obtain g where g: "re_match REP_RE (py_strip line) = Some g"
    by (auto simp: ad4d_parse_report_line_def split: option.splits)
  then obtain r where r: "rmatch REP_RE (py_strip line) \<lparr>marks = Map.empty, caps = Map.empty\<rparr> = Some r"
      and gr: "g = caps r"
    by (auto simp: re_match_def)
  from rep_re_key_group[OF r] gr obtain k where
    k: "g 2 = Some k" "k \<noteq> []" "\<forall>x\<in>set k. cmatch CKeyChar x" by auto
  have ks: "py_strip k = k" by (rule key_strip[OF k(2,3)])
  have nc: "k \<noteq> ''channel''" by (rule key_not_channel[OF k(2,3)])
  from assms g k ks obtain v where
    p: "parsed = py_dict [(PStr ''channel'', PInt (py_int (the (g 1)))), (PStr k, PStr v)]
        \<or> parsed = py_dict [(PStr ''channel'', PNone), (PStr k, PStr v)]"
    by (auto simp: ad4d_parse_report_line_def split: option.splits if_splits)
  then have "parsed = entry_of (Some (py_int (the (g 1))), k, Some v)
           \<or> parsed = entry_of (None, k, Some v)"
    by (simp add: entry_of_def)
  with nc show ?thesis by blast
qed

lemma entry_match_key:
  assumes "k \<noteq> ''channel''"
  shows "\<exists>a. ad4d_match_key render (entry_of (ch, k, v)) = Inr a"
    and "\<exists>a. p10t_match_key render (entry_of (ch, k, v)) = Inr a"
  using assms
  by (auto simp: entry_of_def py_dict_def ad4d_match_key_def p10t_match_key_def
      first_other_key_def Let_def)

lemma ad4d_match_key_total:
  assumes "ad4d_parse_report_line line = Some parsed"
  shows "\<exists>a. ad4d_match_key render parsed = Inr a"
  using ad4d_parsed_is_entry[OF assms] entry_match_key(1) by blast

lemma p10t_parsed_is_entry:
  assumes "p10t_parse_report_line line = Some parsed" and "p10t_key_token line \<noteq> Some ''channel''"
  shows "\<exists>ch k v. parsed = entry_of (ch, k, v) \<and> k \<noteq> ''channel''"
proof -
  let ?parts = "py_split (py_strip_chars ''<> '' line)"
  from assms(1) have ok: "\<not> (length ?parts < 3 \<or> ?parts ! 0 \<noteq> ''REPORT'')"
    by (auto simp: p10t_parse_report_line_def Let_def split: if_splits)
  show ?thesis
  proof (cases "?parts ! 1 = ''1'' \<or> ?parts ! 1 = ''2''")
    case True
    with ok assms(2) have nc: "?parts ! 2 \<noteq> ''channel''"
      by (auto simp: p10t_key_token_def Let_def)
    from True ok assms(1) have
      "parsed = entry_of (Some (py_int (?parts ! 1)), ?parts ! 2,
                  if length ?parts > 3 then Some (?parts ! 3) else None)"
      by (auto simp: p10t_parse_report_line_def Let_def entry_of_def)
    with nc show ?thesis by blast
  next
    case False
    with ok assms(2) have nc: "?parts ! 1 \<noteq> ''channel''"
      by (auto simp: p10t_key_token_def Let_def)
    from False ok assms(1) have
      "parsed = entry_of (None, ?parts ! 1, Some (?parts ! 2))"
      by (auto simp: p10t_parse_report_line_def Let_def entry_of_def)
    with nc show ?thesis by blast
  qed
qed

lemma p10t_match_key_total:
  assumes "p10t_parse_report_line line = Some parsed" and "p10t_key_token line \<noteq> Some ''channel''"
  shows "\<exists>a. p10t_match_key render parsed = Inr a"
  using p10t_parsed_is_entry[OF assms] entry_match_key(2) by blast

text \<open>
  The replies of the statements below are what the parser produces: a direct reply of the
  multi-channel family with a plain value parses to the entry of its (scope, key, value).
\<close>

lemma ad4d_parse_is_entry:
  assumes "key \<noteq> []" and "\<forall>c\<in>set key. cmatch CKeyChar c"
    and "case scope of None \<Rightarrow> \<not> cmatch CDigit (hd key) | Some d \<Rightarrow> cmatch CDigit d"
    and "v \<noteq> []" and "\<forall>c\<in>set v. c \<notin> set ''{}>'' \<and> \<not> is_space c"
  shows "ad4d_parse_report_line (rep_frame scope key v)
           = Some (entry_of (map_option digit_val scope, key, Some v))"
proof -
  have val: "\<exists>r. rmatch valpat (v @ '' >'') st = Some r \<and> caps r = (caps st)(3 \<mapsto> v)" for st
    using rep_value_plain[OF assms(4,5), of st] by (simp add: valpat_def del: rmatch.simps)
  from assms(4,5) have e: "\<not> is_space (hd v)" "\<not> is_space (last v)" by auto
  have "py_strip v = v" by (rule py_strip_id[OF assms(4) e])
  with ad4d_parse_frame[OF assms(1-3) assms(4) e(1) val] key_not_channel[OF assms(1,2)]
  show ?thesis
    by (cases scope) (simp_all add: entry_of_simp scope_val_def)
qed

text \<open>
  C6, as stated, fails: two replies for the same address with different values give
  different Snapshots in the two arrival orders (the later one wins). And a frame of the
  point-to-point family whose key token is the word \<^verbatim>\<open>channel\<close> parses to a dictionary
  with that one key: after the frame \<^verbatim>\<open>< REPORT 5 x >\<close> its merge raises AttributeError,
  before it the merge gives the Snapshot \<^verbatim>\<open>{"5": "x"}\<close>.
\<close>

theorem bulk_merge_last_frame_wins:
  "merge_all [] (parsed_entries ad4d_parse_report_line
       [''< REP 1 FREQUENCY 518475 >'', ''< REP 1 FREQUENCY 470125 >''])
     = Inr [(PInt 1, PDict [(PStr ''FREQUENCY'', PStr ''470125'')])]
   \<and> merge_all [] (parsed_entries ad4d_parse_report_line
       [''< REP 1 FREQUENCY 470125 >'', ''< REP 1 FREQUENCY 518475 >''])
     = Inr [(PInt 1, PDict [(PStr ''FREQUENCY'', PStr ''518475'')])]
   \<and> snapshot_get [(PInt 1, PDict [(PStr ''FREQUENCY'', PStr ''470125'')])] (Some 1) ''FREQUENCY''
       \<noteq> snapshot_get [(PInt 1, PDict [(PStr ''FREQUENCY'', PStr ''518475'')])] (Some 1) ''FREQUENCY''
   \<and> merge_all [] (parsed_entries p10t_parse_report_line
       [''< REPORT 5 x >'', ''< REPORT 1 channel 5 >''])
     = Inl (AttributeError (quoted ''str'' @ '' object has no attribute '' @ quoted ''update''))
   \<and> merge_all [] (parsed_entries p10t_parse_report_line
       [''< REPORT 1 channel 5 >'', ''< REPORT 5 x >''])
     = Inr [(PStr ''5'', PStr ''x'')]"
  by (simp add: parsed_entries_def ad4d_parse_report_line_def p10t_parse_report_line_def
       REP_RE_def str_eval merge_entry_def dict_update_def AList.delete_eq snapshot_get_def)

text \<open>
  C6, amended. Take parsed reply frames \<^verbatim>\<open>{"channel": ch, key: value}\<close>, with \<open>ch\<close> a
  channel index or \<^verbatim>\<open>None\<close> and a key other than the word \<^verbatim>\<open>channel\<close> (every frame the
  multi-channel parser accepts is one, and every frame the point-to-point parser accepts
  whose key token is not that word), among which no two carry the same (scope, key)
  address with different values. Merging them in any arrival order succeeds and gives the
  same Snapshot, and an address that no frame carries is absent from it (not present with
  a null or empty value).
\<close>

theorem bulk_merge_order_independent:
  assumes "\<forall>r\<in>set rs. fst (snd r) \<noteq> ''channel''"
    and "mset rs' = mset rs"
    and "\<forall>f\<in>set rs. \<forall>g\<in>set rs. fst f = fst g \<and> fst (snd f) = fst (snd g) \<longrightarrow> f = g"
  shows "\<exists>m m'. merge_all [] (map entry_of rs) = Inr m
           \<and> merge_all [] (map entry_of rs') = Inr m'
           \<and> snapshot m = snapshot m'
           \<and> (\<forall>ch key. (\<forall>v. (ch, key, v) \<notin> set rs) \<longrightarrow>
                 snapshot_get m ch key = None \<and> snapshot_get m' ch key = None)"
proof -
  have set_eq: "set rs' = set rs" using assms(2) by (rule mset_eq_setD)
  have e: "channels_are_dicts []" by (simp add: channels_are_dicts_def)
  from merge_all_fold[OF assms(1) e] obtain m where
    m: "merge_all [] (map entry_of rs) = Inr m" "snapshot m = fold snap_step rs (snapshot [])"
       "\<forall>c k. (\<forall>v. (c, k, v) \<notin> set rs) \<longrightarrow> snapshot_get m c k = snapshot_get [] c k"
    by blast
  from assms(1) set_eq have "\<forall>r\<in>set rs'. fst (snd r) \<noteq> ''channel''" by simp
  from merge_all_fold[OF this e] obtain m' where
    m': "merge_all [] (map entry_of rs') = Inr m'" "snapshot m' = fold snap_step rs' (snapshot [])"
       "\<forall>c k. (\<forall>v. (c, k, v) \<notin> set rs') \<longrightarrow> snapshot_get m' c k = snapshot_get [] c k"
    by blast
  have "fold snap_step rs = fold snap_step rs'"
  proof (rule fold_multiset_equiv)
    fix x y assume "x \<in> set rs" "y \<in> set rs"
    with assms(3) show "snap_step x \<circ> snap_step y = snap_step y \<circ> snap_step x"
      by (intro snap_step_commute) blast
  next
    show "mset rs = mset rs'" using assms(2) by simp
  qed
  with m(2) m'(2) have "snapshot m = snapshot m'" by simp
  moreover have "snapshot_get [] c k = None" for c k
    by (cases c) (simp_all add: snapshot_get_def)
  ultimately show ?thesis using m(1,3) m'(1,3) set_eq by auto
qed

text \<open>Witness for C6: a device reply and two replies of channel 1, in two orders.\<close>

theorem bulk_merge_order_independent_witness:
  "\<exists>m m'. merge_all [] (map entry_of
              [(None, ''MODEL'', Some ''AD4D''), (Some 1, ''FREQUENCY'', Some ''518475''),
               (Some 1, ''RSSI'', Some ''-60'')]) = Inr m
         \<and> merge_all [] (map entry_of
              [(Some 1, ''RSSI'', Some ''-60''), (Some 1, ''FREQUENCY'', Some ''518475''),
               (None, ''MODEL'', Some ''AD4D'')]) = Inr m'
         \<and> snapshot m = snapshot m'
         \<and> snapshot_get m (Some 2) ''RSSI'' = None"
proof -
  let ?rs = "[(None, ''MODEL'', Some ''AD4D''), (Some 1, ''FREQUENCY'', Some ''518475''),
              (Some 1, ''RSSI'', Some ''-60'')] :: reply list"
  let ?rs' = "[(Some 1, ''RSSI'', Some ''-60''), (Some 1, ''FREQUENCY'', Some ''518475''),
               (None, ''MODEL'', Some ''AD4D'')] :: reply list"
  have h1: "\<forall>r\<in>set ?rs. fst (snd r) \<noteq> ''channel''" by simp
  have h2: "mset ?rs' = mset ?rs" by (simp add: add.commute add.left_commute)
  have h3: "\<forall>f\<in>set ?rs. \<forall>g\<in>set ?rs. fst f = fst g \<and> fst (snd f) = fst (snd g) \<longrightarrow> f = g"
    by simp
  have h4: "\<forall>v. (Some 2, ''RSSI'', v) \<notin> set ?rs" by simp
  from bulk_merge_order_independent[OF h1 h2 h3] h4 show ?thesis by blast
qed

section \<open>The command client\<close>

lemmas net_eval =
  ad4d_send_command_def ad4d_send_command_body_def ad4d_reply_def ad4d_lines_def
  p10t_send_command_def p10t_send_command_body_def p10t_read_and_scan_def p10t_reply_def
  p10t_lines_def py_split_sep_def wire_def opt_str_def ad4d_payloads_def p10t_payloads_def ad4d_match_key_def p10t_match_key_def
  first_other_key_def first_other_value_def ad4d_no_data_def p10t_no_data_def
  format_output_def error_result_def parsed_entries_def
  ad4d_parse_report_line_def p10t_parse_report_line_def REP_RE_def py_str_int_def
  str_nat.simps

lemma ad4d_lines_filter:
  "ad4d_lines raw =
     map (\<lambda>part. ''< REP '' @ py_strip part)
       (filter (\<lambda>part. py_strip part \<noteq> [])
          (filter (\<lambda>part. \<not> py_in ''ERR'' part) (py_split_sep ''< REP '' raw)))"
  by (simp add: ad4d_lines_def conj_commute)

text \<open>
  C4, as stated, fails for the point-to-point family, whose \<^verbatim>\<open>send_command\<close> has no
  error-marker filter: a reply frame that contains \<^verbatim>\<open>ERR\<close> is matched against the
  requested address and returned as the value.
\<close>

theorem p10t_error_frame_surfaced:
  "p10t_send_command (\<lambda>f d. [])
     \<lparr>connect_result = None, send_result = (\<lambda>i. None),
      recv_events = [Recv ''< REPORT 1 FREQUENCY ERR >'', RecvRaise SocketTimeout]\<rparr>
     (Some ''GET 1 FREQUENCY'') (Some ''1 FREQUENCY'') ''text'' False = PStr ''ERR''"
  by (simp add: net_eval str_eval)

text \<open>
  C4, amended. For the multi-channel family, the pieces of the reply text that contain
  \<^verbatim>\<open>ERR\<close> have no influence on what \<^verbatim>\<open>send_command\<close> returns: two exchanges that differ
  only in such pieces return the same result, in the single-command and in the bulk
  branch. A frame with the marker is therefore never matched, merged or surfaced.
\<close>

theorem ad4d_error_frames_dropped:
  assumes "recv_loop (recv_events s1) [] = Inr chunks1"
    and "recv_loop (recv_events s2) [] = Inr chunks2"
    and "connect_result s1 = connect_result s2" and "send_result s1 = send_result s2"
    and "filter (\<lambda>part. \<not> py_in ''ERR'' part) (py_split_sep ''< REP '' (concat chunks1))
       = filter (\<lambda>part. \<not> py_in ''ERR'' part) (py_split_sep ''< REP '' (concat chunks2))"
  shows "ad4d_send_command render s1 command expect_key output_format bulk
       = ad4d_send_command render s2 command expect_key output_format bulk"
proof -
  have "ad4d_lines (concat chunks1) = ad4d_lines (concat chunks2)"
    using assms(5) by (simp only: ad4d_lines_filter)
  then have "ad4d_reply render command expect_key output_format bulk (concat chunks1)
           = ad4d_reply render command expect_key output_format bulk (concat chunks2)"
    by (simp add: ad4d_reply_def)
  with assms(1-4) show ?thesis
    by (cases bulk)
       (simp_all add: ad4d_send_command_def ad4d_send_command_body_def split: option.splits)
qed

text \<open>
  Witness for C4: a reply with an error frame before it gives what the reply alone gives,
  the frequency.
\<close>

theorem ad4d_error_frames_dropped_witness:
  "ad4d_send_command (\<lambda>f d. [])
     \<lparr>connect_result = None, send_result = (\<lambda>i. None),
      recv_events = [Recv (''< REP ERR >'' @ [CHR 0x0D, CHR 0x0A] @ ''< REP 1 FREQUENCY 518475 >''),
                     RecvRaise SocketTimeout]\<rparr>
     (Some ''GET 1 FREQUENCY'') (Some ''1 FREQUENCY'') ''text'' False
   = PStr ''518475''"
proof -
  let ?s1 = "\<lparr>connect_result = None, send_result = (\<lambda>i. None),
      recv_events = [Recv (''< REP ERR >'' @ [CHR 0x0D, CHR 0x0A] @ ''< REP 1 FREQUENCY 518475 >''),
                     RecvRaise SocketTimeout]\<rparr>"
  let ?s2 = "\<lparr>connect_result = None, send_result = (\<lambda>i. None),
      recv_events = [Recv ''< REP 1 FREQUENCY 518475 >'', RecvRaise SocketTimeout]\<rparr>"
  have 1: "recv_loop (recv_events ?s1) [] =
             Inr [''< REP ERR >'' @ [CHR 0x0D, CHR 0x0A] @ ''< REP 1 FREQUENCY 518475 >'']" by simp
  have 2: "recv_loop (recv_events ?s2) [] = Inr [''< REP 1 FREQUENCY 518475 >'']" by simp
  have 3: "connect_result ?s1 = connect_result ?s2" by simp
  have 4: "send_result ?s1 = send_result ?s2" by simp
  have 5: "filter (\<lambda>part. \<not> py_in ''ERR'' part)
             (py_split_sep ''< REP '' (concat [''< REP ERR >'' @ [CHR 0x0D, CHR 0x0A] @ ''< REP 1 FREQUENCY 518475 >'']))
       = filter (\<lambda>part. \<not> py_in ''ERR'' part)
             (py_split_sep ''< REP '' (concat [''< REP 1 FREQUENCY 518475 >'']))"
    by (simp add: py_split_sep_def)
  have "ad4d_send_command (\<lambda>f d. []) ?s2 (Some ''GET 1 FREQUENCY'') (Some ''1 FREQUENCY'')
          ''text'' False = PStr ''518475''"
    by (simp add: net_eval str_eval)
  with ad4d_error_frames_dropped[OF 1 2 3 4 5, of "\<lambda>f d. []" "Some ''GET 1 FREQUENCY''"
         "Some ''1 FREQUENCY''" "''text''" False]
  show ?thesis by simp
qed

lemma ad4d_scan_no_match:
  assumes "\<forall>line\<in>set lines. ad4d_not_for render full_key line"
  shows "ad4d_scan render command (Some full_key) output_format bulk lines
           = Inr (ad4d_no_data render output_format bulk)"
  using assms
proof (induction lines)
  case Nil
  then show ?case by simp
next
  case (Cons line lines)
  then have ih: "ad4d_scan render command (Some full_key) output_format bulk lines
           = Inr (ad4d_no_data render output_format bulk)" by simp
  show ?case
  proof (cases "ad4d_parse_report_line line")
    case None
    with ih show ?thesis by simp
  next
    case (Some parsed)
    from ad4d_match_key_total[OF Some] obtain a where a: "ad4d_match_key render parsed = Inr a"
      by blast
    from Cons.prems Some a have "parsed = [] \<or> a \<noteq> full_key"
      by (simp add: ad4d_not_for_def)
    with Some a ih show ?thesis by auto
  qed
qed

lemma p10t_scan_no_match:
  assumes "\<forall>line\<in>set lines. p10t_not_for render full_key line
             \<and> p10t_key_token line \<noteq> Some ''channel''"
  shows "p10t_scan render (Some full_key) output_format bulk lines
           = Inr (p10t_no_data render output_format bulk)"
  using assms
proof (induction lines)
  case Nil
  then show ?case by simp
next
  case (Cons line lines)
  then have ih: "p10t_scan render (Some full_key) output_format bulk lines
           = Inr (p10t_no_data render output_format bulk)" by simp
  show ?case
  proof (cases "p10t_parse_report_line line")
    case None
    with ih show ?thesis by simp
  next
    case (Some parsed)
    from Cons.prems have t: "p10t_key_token line \<noteq> Some ''channel''" by simp
    from p10t_match_key_total[OF Some t] obtain a where a: "p10t_match_key render parsed = Inr a"
      by blast
    from Cons.prems Some a have "parsed = [] \<or> a \<noteq> full_key"
      by (simp add: p10t_not_for_def)
    with Some a ih show ?thesis by auto
  qed
qed

lemma recv_loop_not_timeout: "recv_loop es chunks \<noteq> Inl SocketTimeout"
  by (induction es chunks rule: recv_loop.induct) auto

lemma no_data_not_error:
  "ad4d_no_data render output_format bulk \<noteq> error_result e"
  "p10t_no_data render output_format bulk \<noteq> error_result e"
  by (auto simp: ad4d_no_data_def p10t_no_data_def error_result_def format_output_def)

text \<open>
  C8, as stated, fails for the point-to-point client. The connection succeeds, the one
  frame received within the read window is \<^verbatim>\<open>< REPORT 1 channel 5 >\<close>, which is no reply
  for the requested address \<^verbatim>\<open>1 FREQUENCY\<close>, and the call returns the error string
  \<^verbatim>\<open>(error: )\<close>, not the no-data result \<^verbatim>\<open>(no match)\<close>: the dictionary built for the frame
  has no key but \<^verbatim>\<open>channel\<close>, and the scan raises StopIteration on it.
\<close>

theorem no_matching_reply_yet_error:
  "p10t_send_command (\<lambda>f d. [])
     \<lparr>connect_result = None, send_result = (\<lambda>i. None),
      recv_events = [Recv ''< REPORT 1 channel 5 >'', RecvRaise SocketTimeout]\<rparr>
     (Some ''GET 1 FREQUENCY'') (Some ''1 FREQUENCY'') ''text'' False
       = PStr ''(error: )''
   \<and> p10t_no_data (\<lambda>f d. []) ''text'' False = PStr ''(no match)''"
  by (simp add: net_eval str_eval)

text \<open>
  C8, amended. When the connection and the writes succeed, reading raises nothing but the
  time-out that ends the read loop, and no candidate frame has the requested address (the
  parser rejects the frame, or the scan does not compute this address for it), a \<^verbatim>\<open>GET\<close>
  of the multi-channel client returns its no-data result; so does a \<^verbatim>\<open>GET\<close> of the
  point-to-point client when, in addition, no candidate frame has the word \<^verbatim>\<open>channel\<close>
  as its key token. When the connection attempt fails with \<open>e\<close>, the call of either
  client returns the error string made from \<open>e\<close>. No no-data result equals an error
  string, whatever the exception.
\<close>

theorem no_data_distinct_from_transport_error:
  assumes "connect_result sock = None" and "\<forall>i. send_result sock i = None"
    and "recv_loop (recv_events sock) [] = Inr chunks"
    and "connect_result sock' = Some e"
  shows "((\<forall>line\<in>set (ad4d_lines (concat chunks)). ad4d_not_for render full_key line) \<longrightarrow>
            ad4d_send_command render sock (Some (''GET '' @ full_key)) (Some full_key)
              output_format False = ad4d_no_data render output_format False)
       \<and> ((\<forall>line\<in>set (p10t_lines (concat chunks)).
              p10t_not_for render full_key line \<and> p10t_key_token line \<noteq> Some ''channel'') \<longrightarrow>
            p10t_send_command render sock (Some (''GET '' @ full_key)) (Some full_key)
              output_format False = p10t_no_data render output_format False)
       \<and> ad4d_send_command render sock' command expect_key output_format bulk = error_result e
       \<and> p10t_send_command render sock' command expect_key output_format bulk = error_result e
       \<and> (\<forall>e'. ad4d_no_data render output_format False \<noteq> error_result e')
       \<and> (\<forall>e'. p10t_no_data render output_format False \<noteq> error_result e')"
proof -
  have s: "send_all (send_result sock) i ps = None" for i ps
    using assms(2) by (induction ps arbitrary: i) auto
  have a: "ad4d_send_command render sock (Some (''GET '' @ full_key)) (Some full_key)
              output_format False = ad4d_no_data render output_format False"
    if "\<forall>line\<in>set (ad4d_lines (concat chunks)). ad4d_not_for render full_key line"
    using assms(1,3) ad4d_scan_no_match[OF that]
    by (simp add: ad4d_send_command_def ad4d_send_command_body_def ad4d_reply_def s
        del: send_all.simps)
  have p: "p10t_send_command render sock (Some (''GET '' @ full_key)) (Some full_key)
              output_format False = p10t_no_data render output_format False"
    if "\<forall>line\<in>set (p10t_lines (concat chunks)).
          p10t_not_for render full_key line \<and> p10t_key_token line \<noteq> Some ''channel''"
    using assms(1,3) p10t_scan_no_match[OF that]
    by (simp add: p10t_send_command_def p10t_send_command_body_def p10t_read_and_scan_def
        p10t_reply_def s del: send_all.simps)
  have e: "ad4d_send_command render sock' command expect_key output_format bulk = error_result e"
       "p10t_send_command render sock' command expect_key output_format bulk = error_result e"
    using assms(4)
    by (simp_all add: ad4d_send_command_def ad4d_send_command_body_def p10t_send_command_def
        p10t_send_command_body_def)
  show ?thesis using a p e no_data_not_error by blast
qed

text \<open>
  Witness for C8: a reply for channel 2 while channel 1 is asked for, and a refused
  connection.
\<close>

theorem no_data_distinct_from_transport_error_witness:
  "ad4d_send_command (\<lambda>f d. [])
     \<lparr>connect_result = None, send_result = (\<lambda>i. None),
      recv_events = [Recv ''< REP 2 FREQUENCY 470125 >'', RecvRaise SocketTimeout]\<rparr>
     (Some ''GET 1 FREQUENCY'') (Some ''1 FREQUENCY'') ''text'' False = PNone
   \<and> p10t_send_command (\<lambda>f d. [])
     \<lparr>connect_result = None, send_result = (\<lambda>i. None),
      recv_events = [Recv ''< REPORT 2 FREQUENCY 470125 >'', RecvRaise SocketTimeout]\<rparr>
     (Some ''GET 1 FREQUENCY'') (Some ''1 FREQUENCY'') ''text'' False = PStr ''(no match)''
   \<and> ad4d_send_command (\<lambda>f d. [])
     \<lparr>connect_result = Some (OSError ''Connection refused''), send_result = (\<lambda>i. None),
      recv_events = []\<rparr>
     (Some ''GET 1 FREQUENCY'') (Some ''1 FREQUENCY'') ''text'' False
       = PStr ''(error: Connection refused)''"
proof -
  let ?sa = "\<lparr>connect_result = None, send_result = (\<lambda>i. None),
      recv_events = [Recv ''< REP 2 FREQUENCY 470125 >'', RecvRaise SocketTimeout]\<rparr>"
  let ?sp = "\<lparr>connect_result = None, send_result = (\<lambda>i. None),
      recv_events = [Recv ''< REPORT 2 FREQUENCY 470125 >'', RecvRaise SocketTimeout]\<rparr>"
  let ?sock' = "\<lparr>connect_result = Some (OSError ''Connection refused''),
      send_result = (\<lambda>i. None), recv_events = []\<rparr>"
  have a1: "connect_result ?sa = None" and p1: "connect_result ?sp = None" by simp_all
  have a2: "\<forall>i. send_result ?sa i = None" and p2: "\<forall>i. send_result ?sp i = None" by simp_all
  have a3: "recv_loop (recv_events ?sa) [] = Inr [''< REP 2 FREQUENCY 470125 >'']" by simp
  have p3: "recv_loop (recv_events ?sp) [] = Inr [''< REPORT 2 FREQUENCY 470125 >'']" by simp
  have 4: "connect_result ?sock' = Some (OSError ''Connection refused'')" by simp
  have a: "\<forall>line\<in>set (ad4d_lines (concat [''< REP 2 FREQUENCY 470125 >''])).
             ad4d_not_for (\<lambda>f d. []) ''1 FREQUENCY'' line"
    by (simp add: ad4d_not_for_def net_eval str_eval)
  have p: "\<forall>line\<in>set (p10t_lines (concat [''< REPORT 2 FREQUENCY 470125 >''])).
             p10t_not_for (\<lambda>f d. []) ''1 FREQUENCY'' line
             \<and> p10t_key_token line \<noteq> Some ''channel''"
    by (simp add: p10t_not_for_def p10t_key_token_def net_eval str_eval)
  from no_data_distinct_from_transport_error[OF a1 a2 a3 4,
      of "\<lambda>f d. []" "''1 FREQUENCY''" "''text''" "Some ''GET 1 FREQUENCY''" "Some ''1 FREQUENCY''" False]
    a
  have ra: "ad4d_send_command (\<lambda>f d. []) ?sa (Some ''GET 1 FREQUENCY'') (Some ''1 FREQUENCY'')
              ''text'' False = ad4d_no_data (\<lambda>f d. []) ''text'' False"
    and re: "ad4d_send_command (\<lambda>f d. []) ?sock' (Some ''GET 1 FREQUENCY'')
              (Some ''1 FREQUENCY'') ''text'' False = error_result (OSError ''Connection refused'')"
    by simp_all
  from no_data_distinct_from_transport_error[OF p1 p2 p3 4,
      of "\<lambda>f d. []" "''1 FREQUENCY''" "''text''" "Some ''GET 1 FREQUENCY''" "Some ''1 FREQUENCY''" False]
    p
  have rp: "p10t_send_command (\<lambda>f d. []) ?sp (Some ''GET 1 FREQUENCY'') (Some ''1 FREQUENCY'')
              ''text'' False = p10t_no_data (\<lambda>f d. []) ''text'' False"
    by simp
  from ra rp re show ?thesis
    by (simp add: ad4d_no_data_def p10t_no_data_def error_result_def)
qed

lemma ad4d_parsed_shape:
  assumes "ad4d_parse_report_line line = Some parsed"
  shows "\<exists>c k v. parsed = py_dict [(PStr ''channel'', c), (PStr k, PStr v)]"
  using assms
  by (auto simp: ad4d_parse_report_line_def split: option.splits if_splits)

lemma ad4d_lookup_str:
  assumes "parsed = py_dict [(PStr ''channel'', c), (PStr k, PStr v)]"
    and "first_other_key parsed = Inr kn" and "map_of parsed kn = Some x"
  shows "str_or_none x"
  using assms
  by (cases "k = ''channel''") (auto simp: py_dict_def first_other_key_def)

lemma p10t_first_value:
  assumes "str_or_none v"
    and "first_other_value (py_dict [(PStr ''channel'', c), (PStr k, v)]) = Inr x"
  shows "str_or_none x"
  using assms
  by (cases "k = ''channel''") (auto simp: py_dict_def first_other_value_def)

lemma p10t_parsed_value:
  assumes "p10t_parse_report_line line = Some parsed" and "first_other_value parsed = Inr x"
  shows "str_or_none x"
  using assms
  by (auto simp: p10t_parse_report_line_def Let_def split: if_splits
      intro: p10t_first_value[rotated])

lemma ad4d_scan_value:
  assumes "ad4d_scan render command expect_key output_format bulk lines = Inr x"
  shows "str_or_none x"
  using assms
proof (induction lines)
  case Nil
  then show ?case by (auto simp: ad4d_no_data_def)
next
  case (Cons line lines)
  show ?case
  proof (cases "ad4d_parse_report_line line")
    case None
    with Cons show ?thesis by simp
  next
    case (Some parsed)
    from ad4d_parsed_shape[OF Some] obtain c k v where
      sh: "parsed = py_dict [(PStr ''channel'', c), (PStr k, PStr v)]" by blast
    show ?thesis
      using Cons Some ad4d_lookup_str[OF sh]
      by (auto split: if_splits sum.splits option.splits)
  qed
qed

lemma p10t_scan_value:
  assumes "p10t_scan render expect_key output_format bulk lines = Inr x"
  shows "str_or_none x"
  using assms
proof (induction lines)
  case Nil
  then show ?case by (auto simp: p10t_no_data_def)
next
  case (Cons line lines)
  show ?case
  proof (cases "p10t_parse_report_line line")
    case None
    with Cons show ?thesis by simp
  next
    case (Some parsed)
    show ?thesis
      using Cons Some p10t_parsed_value[OF Some]
      by (auto split: if_splits sum.splits option.splits)
  qed
qed

lemma ad4d_reply_value:
  assumes "ad4d_reply render command expect_key output_format bulk raw = Inr x"
  shows "str_or_none x"
  using assms
  by (cases bulk) (auto simp: ad4d_reply_def dest: ad4d_scan_value split: sum.splits)

lemma p10t_reply_value:
  assumes "p10t_reply render expect_key output_format bulk raw = Inr x"
  shows "str_or_none x"
  using assms
  by (cases bulk) (auto simp: p10t_reply_def dest: p10t_scan_value split: sum.splits)

lemma ad4d_result_value:
  "str_or_none (ad4d_send_command render sock command expect_key output_format bulk)"
  by (auto simp: ad4d_send_command_def ad4d_send_command_body_def error_result_def
      dest: ad4d_reply_value split: option.splits sum.splits)

lemma p10t_result_value:
  "str_or_none (p10t_send_command render sock command expect_key output_format bulk)"
  by (auto simp: p10t_send_command_def p10t_send_command_body_def p10t_read_and_scan_def
      error_result_def dest: p10t_reply_value split: option.splits sum.splits if_splits)

text \<open>
  C10, as stated, fails in its last clause: a \<^verbatim>\<open>socket.timeout\<close> raised by \<^verbatim>\<open>recv\<close> is
  caught inside the read loop and ends it; the call then returns the no-data result, not
  an \<^verbatim>\<open>(error: ...)\<close> string.
\<close>

theorem recv_timeout_is_not_an_error_result:
  "ad4d_send_command (\<lambda>f d. [])
     \<lparr>connect_result = None, send_result = (\<lambda>i. None), recv_events = [RecvRaise SocketTimeout]\<rparr>
     (Some ''GET 1 FREQUENCY'') (Some ''1 FREQUENCY'') ''text'' False = PNone
   \<and> PNone \<noteq> error_result SocketTimeout"
  by (simp add: net_eval str_eval)

text \<open>
  C10, amended. For every input and every behaviour of the socket, \<^verbatim>\<open>send_command\<close> of
  either client returns a string or \<^verbatim>\<open>None\<close>; an exception raised by the connection
  attempt, by a write, by a read (other than the time-out that ends the read loop), or
  anywhere else in the body is returned as the string \<^verbatim>\<open>(error: ...)\<close> made from it.
\<close>

theorem send_command_total:
  "str_or_none (ad4d_send_command render sock command expect_key output_format bulk)
   \<and> str_or_none (p10t_send_command render sock command expect_key output_format bulk)
   \<and> (\<forall>e. connect_result sock = Some e \<or>
            (connect_result sock = None \<and>
             send_all (send_result sock) 0 (ad4d_payloads bulk command) = Some e) \<or>
            (connect_result sock = None \<and>
             send_all (send_result sock) 0 (ad4d_payloads bulk command) = None \<and>
             recv_loop (recv_events sock) [] = Inl e) \<or>
            ad4d_send_command_body render sock command expect_key output_format bulk = Inl e
          \<longrightarrow> ad4d_send_command render sock command expect_key output_format bulk
                = error_result e)
   \<and> (\<forall>e. connect_result sock = Some e \<or>
            (connect_result sock = None \<and>
             send_all (send_result sock) 0 (p10t_payloads bulk command) = Some e) \<or>
            (connect_result sock = None \<and>
             send_all (send_result sock) 0 (p10t_payloads bulk command) = None \<and>
             recv_loop (recv_events sock) [] = Inl e) \<or>
            p10t_send_command_body render sock command expect_key output_format bulk = Inl e
          \<longrightarrow> p10t_send_command render sock command expect_key output_format bulk
                = error_result e)"
proof (intro conjI allI impI)
  show "str_or_none (ad4d_send_command render sock command expect_key output_format bulk)"
    by (rule ad4d_result_value)
  show "str_or_none (p10t_send_command render sock command expect_key output_format bulk)"
    by (rule p10t_result_value)
next
  fix e
  assume "connect_result sock = Some e \<or>
            (connect_result sock = None \<and>
             send_all (send_result sock) 0 (ad4d_payloads bulk command) = Some e) \<or>
            (connect_result sock = None \<and>
             send_all (send_result sock) 0 (ad4d_payloads bulk command) = None \<and>
             recv_loop (recv_events sock) [] = Inl e) \<or>
            ad4d_send_command_body render sock command expect_key output_format bulk = Inl e"
  then have "ad4d_send_command_body render sock command expect_key output_format bulk = Inl e"
    by (auto simp: ad4d_send_command_body_def)
  then show "ad4d_send_command render sock command expect_key output_format bulk = error_result e"
    by (simp add: ad4d_send_command_def)
next
  fix e
  assume "connect_result sock = Some e \<or>
            (connect_result sock = None \<and>
             send_all (send_result sock) 0 (p10t_payloads bulk command) = Some e) \<or>
            (connect_result sock = None \<and>
             send_all (send_result sock) 0 (p10t_payloads bulk command) = None \<and>
             recv_loop (recv_events sock) [] = Inl e) \<or>
            p10t_send_command_body render sock command expect_key output_format bulk = Inl e"
  then have "p10t_send_command_body render sock command expect_key output_format bulk = Inl e"
    using recv_loop_not_timeout[of "recv_events sock" "[]"]
    by (auto simp: p10t_send_command_body_def p10t_read_and_scan_def)
  then show "p10t_send_command render sock command expect_key output_format bulk = error_result e"
    by (simp add: p10t_send_command_def)
qed

text \<open>
  Witness for C10: a refused connection, and a connection reset while reading the
  replies of a bulk query.
\<close>

theorem send_command_total_witness:
  "ad4d_send_command (\<lambda>f d. [])
     \<lparr>connect_result = Some (OSError ''Connection refused''), send_result = (\<lambda>i. None),
      recv_events = []\<rparr>
     (Some ''GET 1 FREQUENCY'') (Some ''1 FREQUENCY'') ''text'' False
       = PStr ''(error: Connection refused)''
   \<and> p10t_send_command (\<lambda>f d. [])
     \<lparr>connect_result = None, send_result = (\<lambda>i. None),
      recv_events = [Recv ''< REPORT 1 FREQUENCY 518475 >'',
                     RecvRaise (OSError ''Connection reset by peer'')]\<rparr>
     None None ''json'' True = PStr ''(error: Connection reset by peer)''"
proof -
  let ?s1 = "\<lparr>connect_result = Some (OSError ''Connection refused''),
      send_result = (\<lambda>i. None), recv_events = []\<rparr>"
  let ?s2 = "\<lparr>connect_result = None, send_result = (\<lambda>i. None),
      recv_events = [Recv ''< REPORT 1 FREQUENCY 518475 >'',
                     RecvRaise (OSError ''Connection reset by peer'')]\<rparr>"
  have s: "send_all (\<lambda>i. None) i ps = None" for i ps
    by (induction ps arbitrary: i) auto
  have 1: "connect_result ?s1 = Some (OSError ''Connection refused'')" by simp
  have 2: "connect_result ?s2 = None \<and>
           send_all (send_result ?s2) 0 (p10t_payloads True None) = None \<and>
           recv_loop (recv_events ?s2) [] = Inl (OSError ''Connection reset by peer'')"
    by (simp add: s del: send_all.simps)
  from send_command_total[of "\<lambda>f d. []" ?s1 "Some ''GET 1 FREQUENCY''" "Some ''1 FREQUENCY''"
        "''text''" False] 1
  have a: "ad4d_send_command (\<lambda>f d. []) ?s1 (Some ''GET 1 FREQUENCY'') (Some ''1 FREQUENCY'')
             ''text'' False = error_result (OSError ''Connection refused'')"
    by blast
  from send_command_total[of "\<lambda>f d. []" ?s2 None None "''json''" True] 2
  have b: "p10t_send_command (\<lambda>f d. []) ?s2 None None ''json'' True
             = error_result (OSError ''Connection reset by peer'')"
    by blast
  from a b show ?thesis by (simp add: error_result_def)
qed

end
